theory Spec2Isabelle
  imports Complex_Main "HOL-Library.AList"
begin

section \<open>Job control of myshell.py\<close>

text \<open>
  A shallow embedding of the job-control part of \<^verbatim>\<open>src/myshell.py\<close>: the job table
  \<^verbatim>\<open>jobs\<close>, the index \<^verbatim>\<open>pid_to_jid\<close>, the counter \<^verbatim>\<open>next_job_id\<close>, the SIGCHLD handler,
  the builtins \<^verbatim>\<open>kill\<close>, \<^verbatim>\<open>jobs\<close>, \<^verbatim>\<open>fg\<close>, \<^verbatim>\<open>bg\<close>, \<^verbatim>\<open>exit\<close>, the launcher, the pruner, the
  dispatcher and the read-eval loop.

  The module's globals are the fields of the record \<open>shell\<close>, passed through every
  function. What the program writes to the terminal and the signal calls that return
  are appended to the field \<open>out\<close>. What the operating system and the Python library
  answer (the clock, \<^verbatim>\<open>os.getpgid\<close>, \<^verbatim>\<open>os.killpg\<close>, \<^verbatim>\<open>os.kill\<close>, \<^verbatim>\<open>subprocess.Popen\<close>,
  \<^verbatim>\<open>os.waitpid\<close>, \<^verbatim>\<open>shlex.split\<close>, \<^verbatim>\<open>str.strip\<close>, \<^verbatim>\<open>int\<close>) is a parameter of the function
  that asks.
\<close>

subsection \<open>Strings\<close>

text \<open>\<^verbatim>\<open>str(n)\<close> for an integer, as the f-strings of the source render it.\<close>

definition digit_char :: "nat \<Rightarrow> char" where
  "digit_char d = ''0123456789'' ! d"

fun str_nat :: "nat \<Rightarrow> string" where
  "str_nat n = (if n < 10 then [digit_char n] else str_nat (n div 10) @ [digit_char (n mod 10)])"

declare str_nat.simps [simp del]

definition str_int :: "int \<Rightarrow> string" where
  "str_int i = (if i < 0 then CHR ''-'' # str_nat (nat (- i)) else str_nat (nat i))"

text \<open>\<^verbatim>\<open>s.startswith(p)\<close> and \<^verbatim>\<open>s.endswith(p)\<close>.\<close>

definition startswith :: "string \<Rightarrow> string \<Rightarrow> bool" where
  "startswith s p = (take (length p) s = p)"

definition endswith :: "string \<Rightarrow> string \<Rightarrow> bool" where
  "endswith s p = (length p \<le> length s \<and> drop (length s - length p) s = p)"

subsection \<open>The job table\<close>

text \<open>
  One entry of \<^verbatim>\<open>jobs\<close>. The field \<^verbatim>\<open>proc\<close> (the Popen object) is left out: the program
  reads nothing of it but \<^verbatim>\<open>proc.pid\<close>, which is the field \<open>pid\<close>. The status is the
  string the source stores. Time stamps are the values of \<^verbatim>\<open>time.time()\<close>, taken as
  real numbers.
\<close>

record job =
  pid :: int
  cmdline :: string
  status :: string
  start_time :: real
  exitcode :: "int option"

datatype signal = SIGTERM | SIGCONT | SIGINT | SIGTSTP

text \<open>
  \<open>Print l\<close>: a call \<^verbatim>\<open>print(l)\<close>. \<open>Killpg g sg\<close>: a call \<^verbatim>\<open>os.killpg(g, sg)\<close> that
  returned. \<open>Kill p sg\<close>: a call \<^verbatim>\<open>os.kill(p, sg)\<close> that returned.
\<close>

datatype effect = Print string | Killpg int signal | Kill int signal

text \<open>
  \<^verbatim>\<open>jobs\<close> is an OrderedDict: an association list in insertion order. \<^verbatim>\<open>pid_to_jid\<close> is
  a dict read by key only. The field \<open>registered\<close> is a history variable: the keys
  under which \<^verbatim>\<open>add_job\<close> has stored a record, oldest first. The program has no such
  variable, and no function of the model reads it.
\<close>

record shell =
  jobs :: "(int \<times> job) list"
  next_job_id :: int
  pid_to_jid :: "int \<rightharpoonup> int"
  foreground_pid :: "int option"
  out :: "effect list"
  registered :: "int list"

definition init_shell :: shell where
  "init_shell = \<lparr>jobs = [], next_job_id = 1, pid_to_jid = Map.empty,
                 foreground_pid = None, out = [], registered = []\<rparr>"

definition DONE_ENTRY_TTL :: real where
  "DONE_ENTRY_TTL = 60"

definition py_print :: "string \<Rightarrow> shell \<Rightarrow> shell" where
  "py_print l s = s\<lparr>out := out s @ [Print l]\<rparr>"

definition emit :: "effect \<Rightarrow> shell \<Rightarrow> shell" where
  "emit e s = s\<lparr>out := out s @ [e]\<rparr>"

text \<open>The status strings the source builds.\<close>

definition st_exited :: "int \<Rightarrow> string" where
  "st_exited c = ''Exited('' @ str_int c @ '')''"

definition st_signaled :: "int \<Rightarrow> string" where
  "st_signaled g = ''Signaled('' @ str_int g @ '')''"

subsection \<open>Job helpers\<close>

definition get_next_job_id :: "shell \<Rightarrow> int \<times> shell" where
  "get_next_job_id s = (next_job_id s, s\<lparr>next_job_id := next_job_id s + 1\<rparr>)"

text \<open>\<open>add_job p cmd st t\<close>: \<open>p\<close> is \<^verbatim>\<open>proc.pid\<close>, \<open>t\<close> is what \<^verbatim>\<open>time.time()\<close> returns.\<close>

definition add_job :: "int \<Rightarrow> string \<Rightarrow> string \<Rightarrow> real \<Rightarrow> shell \<Rightarrow> int \<times> shell" where
  "add_job p cmd st t s =
     (let (jid, s1) = get_next_job_id s;
          s2 = s1\<lparr>jobs := AList.update jid
                  \<lparr>pid = p, cmdline = cmd, status = st, start_time = t, exitcode = None\<rparr>
                  (jobs s1)\<rparr>;
          s3 = s2\<lparr>pid_to_jid := (pid_to_jid s2)(p \<mapsto> jid)\<rparr>
      in (jid, s3\<lparr>registered := registered s3 @ [jid]\<rparr>))"

definition remove_job_by_pid :: "int \<Rightarrow> shell \<Rightarrow> shell" where
  "remove_job_by_pid p s =
     (case pid_to_jid s p of
        None \<Rightarrow> s
      | Some jid \<Rightarrow> s\<lparr>pid_to_jid := (pid_to_jid s)(p := None),
                      jobs := AList.delete jid (jobs s)\<rparr>)"

definition find_job_by_jid :: "int \<Rightarrow> shell \<Rightarrow> job option" where
  "find_job_by_jid jid s = map_of (jobs s) jid"

text \<open>
  \<^verbatim>\<open>jobs[jid]["status"] = ...\<close> changes the entry where it stands in the table.
\<close>

definition update_job_status :: "int \<Rightarrow> string \<Rightarrow> int option \<Rightarrow> shell \<Rightarrow> shell" where
  "update_job_status p st ec s =
     (case pid_to_jid s p of
        None \<Rightarrow> s
      | Some jid \<Rightarrow>
          if map_of (jobs s) jid \<noteq> None then
            (let s1 = s\<lparr>jobs := AList.map_entry jid (\<lambda>j. j\<lparr>status := st\<rparr>) (jobs s)\<rparr>
             in case ec of
                  None \<Rightarrow> s1
                | Some c \<Rightarrow> s1\<lparr>jobs := AList.map_entry jid (\<lambda>j. j\<lparr>exitcode := Some c\<rparr>) (jobs s1)\<rparr>)
          else s)"

definition mark_job_done :: "int \<Rightarrow> int option \<Rightarrow> shell \<Rightarrow> shell" where
  "mark_job_done p ec s =
     (case pid_to_jid s p of
        None \<Rightarrow> s
      | Some jid \<Rightarrow>
          if map_of (jobs s) jid \<noteq> None then
            (let s1 = (case ec of
                         Some c \<Rightarrow> s\<lparr>jobs := AList.map_entry jid
                                     (\<lambda>j. j\<lparr>status := st_exited c, exitcode := Some c\<rparr>) (jobs s)\<rparr>
                       | None \<Rightarrow> s\<lparr>jobs := AList.map_entry jid (\<lambda>j. j\<lparr>status := ''Done''\<rparr>) (jobs s)\<rparr>)
             in s1\<lparr>pid_to_jid := (pid_to_jid s1)(p := None)\<rparr>)
          else s)"

subsection \<open>The SIGCHLD handler\<close>

text \<open>
  What \<^verbatim>\<open>os.waitpid\<close> reports of a child, as the macros \<^verbatim>\<open>os.WIFEXITED\<close>,
  \<^verbatim>\<open>os.WIFSIGNALED\<close>, \<^verbatim>\<open>os.WIFSTOPPED\<close>, \<^verbatim>\<open>os.WIFCONTINUED\<close> read it, with the exit code or
  the signal number.
\<close>

datatype wstatus = WIFEXITED int | WIFSIGNALED int | WIFSTOPPED int | WIFCONTINUED | WOTHER

text \<open>
  The handler's loop over the answers of \<^verbatim>\<open>os.waitpid(-1, WNOHANG|WUNTRACED|WCONTINUED)\<close>.
  The list holds the pairs \<^verbatim>\<open>(pid, status)\<close> returned in turn; its end is the call that
  raises \<^verbatim>\<open>ChildProcessError\<close>, which the handler swallows.
\<close>

fun sigchld_handler :: "(int \<times> wstatus) list \<Rightarrow> shell \<Rightarrow> shell" where
  "sigchld_handler [] s = s"
| "sigchld_handler ((p, w) # rest) s =
     (if p = 0 then s
      else if p < 0 then s
      else sigchld_handler rest
        (case w of
           WIFEXITED c \<Rightarrow> mark_job_done p (Some c) (update_job_status p (st_exited c) (Some c) s)
         | WIFSIGNALED g \<Rightarrow> mark_job_done p None (update_job_status p (st_signaled g) None s)
         | WIFSTOPPED g \<Rightarrow> update_job_status p ''Stopped'' None s
         | WIFCONTINUED \<Rightarrow> update_job_status p ''Running'' None s
         | WOTHER \<Rightarrow> s))"

subsection \<open>The pruner\<close>

text \<open>\<open>prune_done_jobs now\<close>: \<open>now\<close> is what \<^verbatim>\<open>time.time()\<close> returns.\<close>

definition prune_done_jobs :: "real \<Rightarrow> shell \<Rightarrow> shell" where
  "prune_done_jobs now s =
     (let to_remove =
            map fst (filter (\<lambda>(jid, j).
              (startswith (status j) ''Exited'' \<or> startswith (status j) ''Signaled''
                 \<or> status j = ''Done'')
              \<and> now - start_time j > DONE_ENTRY_TTL) (jobs s))
      in s\<lparr>jobs := foldl (\<lambda>js jid. AList.delete jid js) (jobs s) to_remove\<rparr>)"

text \<open>The test of the pruner's loop, on one entry of the table.\<close>

definition prune_cond :: "real \<Rightarrow> int \<times> job \<Rightarrow> bool" where
  "prune_cond now e =
     ((startswith (status (snd e)) ''Exited'' \<or> startswith (status (snd e)) ''Signaled''
         \<or> status (snd e) = ''Done'')
      \<and> now - start_time (snd e) > 60)"

subsection \<open>The operating system\<close>

text \<open>
  The answers of the operating system and of the library during one command.
  \<^item> \<open>clock\<close>: \<^verbatim>\<open>time.time()\<close>.
  \<^item> \<open>os_getpgid p\<close>: the process group of \<open>p\<close>, or \<open>Inl e\<close> when the call raises an
    exception whose text is \<open>e\<close> (\<^verbatim>\<open>ProcessLookupError\<close> for a process that is gone).
  \<^item> \<open>os_killpg g sg\<close> and \<open>os_kill p sg\<close>: \<open>None\<close> when the signal is delivered,
    \<open>Some e\<close> when the call raises an exception whose text is \<open>e\<close>.
  \<^item> \<open>popen tokens\<close>: what \<^verbatim>\<open>subprocess.Popen(tokens, preexec_fn=os.setpgrp)\<close> does.
  \<^item> \<open>waitpid p\<close>: the answers of the successive calls \<^verbatim>\<open>os.waitpid(p, os.WUNTRACED)\<close>.
  \<^item> \<open>str_strip l\<close>: \<^verbatim>\<open>l.strip()\<close>.
  \<^item> \<open>shlex_split l\<close>: the tokens of the line, or \<open>Inl e\<close> for \<^verbatim>\<open>ValueError\<close>.
  \<^item> \<open>int_of_str t\<close>: \<^verbatim>\<open>int(t)\<close>, or \<open>None\<close> for \<^verbatim>\<open>ValueError\<close>.
  \<^item> \<open>fs_builtin cmd args\<close>: the lines one of the builtins cd, pwd, echo, clear, ls,
    cat, mkdir, rmdir, rm, touch prints, and the text of the exception it raises, if
    it raises one.
\<close>

datatype spawn = Spawned int | FileNotFoundError | SpawnError string

datatype wait_res = WInterrupted | WRaise | WRet int wstatus

record os_env =
  clock :: real
  os_getpgid :: "int \<Rightarrow> string + int"
  os_killpg :: "int \<Rightarrow> signal \<Rightarrow> string option"
  os_kill :: "int \<Rightarrow> signal \<Rightarrow> string option"
  popen :: "string list \<Rightarrow> spawn"
  waitpid :: "int \<Rightarrow> wait_res list"
  str_strip :: "string \<Rightarrow> string"
  shlex_split :: "string \<Rightarrow> string + string list"
  int_of_str :: "string \<Rightarrow> int option"
  fs_builtin :: "string \<Rightarrow> string list \<Rightarrow> string list \<times> string option"

text \<open>
  \<^verbatim>\<open>os.killpg(os.getpgid(p), sg)\<close>: \<open>Inl e\<close> when one of the two calls raises, the
  delivered signal recorded otherwise.
\<close>

definition killpg_of_pid :: "os_env \<Rightarrow> int \<Rightarrow> signal \<Rightarrow> shell \<Rightarrow> string + shell" where
  "killpg_of_pid os p sg s =
     (case os_getpgid os p of
        Inl e \<Rightarrow> Inl e
      | Inr g \<Rightarrow> (case os_killpg os g sg of
                    Some e \<Rightarrow> Inl e
                  | None \<Rightarrow> Inr (emit (Killpg g sg) s)))"

subsection \<open>Builtins\<close>

datatype exn = SystemExit | IndexError

fun join_sp :: "string list \<Rightarrow> string" where
  "join_sp [] = []"
| "join_sp [x] = x"
| "join_sp (x # y # ys) = x @ '' '' @ join_sp (y # ys)"

definition builtin_exit :: "os_env \<Rightarrow> string list \<Rightarrow> shell \<Rightarrow> shell" where
  "builtin_exit os args s =
     foldl (\<lambda>s1 (jid, j). case killpg_of_pid os (pid j) SIGTERM s1 of
                             Inl e \<Rightarrow> s1
                           | Inr s2 \<Rightarrow> s2)
           (py_print ''Exiting shell.'' s) (jobs s)"

definition kill_token :: "os_env \<Rightarrow> string \<Rightarrow> shell \<Rightarrow> shell" where
  "kill_token os token s =
     (if startswith token ''%'' then
        (case int_of_str os (drop 1 token) of
           None \<Rightarrow> py_print (''kill: invalid pid/job: '' @ token) s
         | Some jid \<Rightarrow>
             (case find_job_by_jid jid s of
                None \<Rightarrow> py_print (''kill: % '' @ str_int jid @ '': no such job'') s
              | Some j \<Rightarrow>
                  (case killpg_of_pid os (pid j) SIGTERM s of
                     Inl e \<Rightarrow> py_print (''kill: '' @ e) s
                   | Inr s1 \<Rightarrow> s1)))
      else
        (case int_of_str os token of
           None \<Rightarrow> py_print (''kill: invalid pid/job: '' @ token) s
         | Some p \<Rightarrow>
             (case os_kill os p SIGTERM of
                Some e \<Rightarrow> py_print (''kill: '' @ e) s
              | None \<Rightarrow> emit (Kill p SIGTERM) s)))"

definition builtin_kill :: "os_env \<Rightarrow> string list \<Rightarrow> shell \<Rightarrow> shell" where
  "builtin_kill os args s =
     (if args = [] then py_print ''kill: missing pid/job'' s
      else foldl (\<lambda>s1 token. kill_token os token s1) s args)"

text \<open>\<^verbatim>\<open>int(x)\<close> of a float: towards zero.\<close>

definition py_trunc :: "real \<Rightarrow> int" where
  "py_trunc x = (if 0 \<le> x then \<lfloor>x\<rfloor> else \<lceil>x\<rceil>)"

definition jobs_line :: "real \<Rightarrow> int \<Rightarrow> job \<Rightarrow> string" where
  "jobs_line now jid j =
     ''['' @ str_int jid @ ''] '' @ str_int (pid j) @ '' '' @ status j @ [CHR 0x09]
       @ cmdline j @ '' (age '' @ str_int (py_trunc (now - start_time j)) @ ''s)''"

definition builtin_jobs :: "os_env \<Rightarrow> string list \<Rightarrow> shell \<Rightarrow> shell" where
  "builtin_jobs os args s =
     foldl (\<lambda>s1 (jid, j). py_print (jobs_line (clock os) jid j) s1) s (jobs s)"

text \<open>
  The wait loop of \<^verbatim>\<open>builtin_fg\<close>, over the answers of \<^verbatim>\<open>os.waitpid(pid, os.WUNTRACED)\<close>.
  \<open>None\<close>: the loop is still waiting when the answers end. \<^verbatim>\<open>job["status"] = ...\<close>
  writes to the entry of the table.
\<close>

fun fg_wait :: "wait_res list \<Rightarrow> int \<Rightarrow> int \<Rightarrow> shell \<Rightarrow> shell option" where
  "fg_wait [] p jid s = None"
| "fg_wait (WInterrupted # rs) p jid s = fg_wait rs p jid s"
| "fg_wait (WRaise # rs) p jid s = Some s"
| "fg_wait (WRet wpid w # rs) p jid s =
     (if wpid = 0 then fg_wait rs p jid s
      else case w of
        WIFSTOPPED g \<Rightarrow>
          (let s1 = s\<lparr>jobs := AList.map_entry jid (\<lambda>j. j\<lparr>status := ''Stopped''\<rparr>) (jobs s)\<rparr>;
               s2 = s1\<lparr>pid_to_jid := (pid_to_jid s1)(p \<mapsto> jid)\<rparr>
           in Some (py_print (CHR 0x0A # ''['' @ str_int jid @ ''] '' @ str_int p @ '' Stopped'') s2))
      | WIFEXITED c \<Rightarrow>
          (let s1 = s\<lparr>jobs := AList.map_entry jid
                        (\<lambda>j. j\<lparr>status := st_exited c, exitcode := Some c\<rparr>) (jobs s)\<rparr>
           in Some (s1\<lparr>pid_to_jid := (pid_to_jid s1)(p := None)\<rparr>))
      | WIFSIGNALED g \<Rightarrow>
          (let s1 = s\<lparr>jobs := AList.map_entry jid (\<lambda>j. j\<lparr>status := st_signaled g\<rparr>) (jobs s)\<rparr>
           in Some (s1\<lparr>pid_to_jid := (pid_to_jid s1)(p := None)\<rparr>))
      | WIFCONTINUED \<Rightarrow> fg_wait rs p jid s
      | WOTHER \<Rightarrow> fg_wait rs p jid s)"

text \<open>The job id \<^verbatim>\<open>fg\<close> and \<^verbatim>\<open>bg\<close> select: \<open>Inl\<close> the line of the early return.\<close>

definition select_jid :: "os_env \<Rightarrow> string \<Rightarrow> string list \<Rightarrow> shell \<Rightarrow> string + int" where
  "select_jid os name args s =
     (case args of
        a # _ \<Rightarrow> (case int_of_str os a of
                    None \<Rightarrow> Inl (name @ '': bad job id'')
                  | Some jid \<Rightarrow> Inr jid)
      | [] \<Rightarrow> (if jobs s = [] then Inl (name @ '': no current job'')
               else Inr (fst (last (jobs s)))))"

definition builtin_fg :: "os_env \<Rightarrow> string list \<Rightarrow> shell \<Rightarrow> shell option" where
  "builtin_fg os args s =
     (case select_jid os ''fg'' args s of
        Inl l \<Rightarrow> Some (py_print l s)
      | Inr jid \<Rightarrow>
          (case find_job_by_jid jid s of
             None \<Rightarrow> Some (py_print (''fg: job '' @ str_int jid @ '' not found'') s)
           | Some j \<Rightarrow>
               (let s1 = (case killpg_of_pid os (pid j) SIGCONT s of
                            Inl e \<Rightarrow> s
                          | Inr s' \<Rightarrow> s');
                    s2 = s1\<lparr>jobs := AList.map_entry jid (\<lambda>j. j\<lparr>status := ''Running''\<rparr>) (jobs s1)\<rparr>;
                    s3 = s2\<lparr>foreground_pid := Some (pid j)\<rparr>
                in map_option (\<lambda>s4. s4\<lparr>foreground_pid := None\<rparr>)
                     (fg_wait (waitpid os (pid j)) (pid j) jid s3))))"

definition builtin_bg :: "os_env \<Rightarrow> string list \<Rightarrow> shell \<Rightarrow> shell" where
  "builtin_bg os args s =
     (case select_jid os ''bg'' args s of
        Inl l \<Rightarrow> py_print l s
      | Inr jid \<Rightarrow>
          (case find_job_by_jid jid s of
             None \<Rightarrow> py_print (''bg: job '' @ str_int jid @ '' not found'') s
           | Some j \<Rightarrow>
               (case killpg_of_pid os (pid j) SIGCONT s of
                  Inl e \<Rightarrow> py_print (''bg: '' @ e) s
                | Inr s1 \<Rightarrow>
                    (let s2 = s1\<lparr>jobs := AList.map_entry jid (\<lambda>j. j\<lparr>status := ''Running''\<rparr>) (jobs s1)\<rparr>;
                         s3 = s2\<lparr>pid_to_jid := (pid_to_jid s2)(pid j \<mapsto> jid)\<rparr>
                     in py_print (''['' @ str_int jid @ ''] '' @ str_int (pid j)
                                   @ '' continued in background'') s3))))"

subsection \<open>Command execution\<close>

text \<open>
  The wait loop of a foreground launch: \<open>p\<close> is \<^verbatim>\<open>proc.pid\<close>, \<open>t\<close> what \<^verbatim>\<open>time.time()\<close>
  returns when the stopped process is registered.
\<close>

fun launch_wait :: "wait_res list \<Rightarrow> int \<Rightarrow> string \<Rightarrow> real \<Rightarrow> shell \<Rightarrow> shell option" where
  "launch_wait [] p cmd t s = None"
| "launch_wait (WInterrupted # rs) p cmd t s = launch_wait rs p cmd t s"
| "launch_wait (WRaise # rs) p cmd t s = Some s"
| "launch_wait (WRet wpid w # rs) p cmd t s =
     (if wpid = 0 then launch_wait rs p cmd t s
      else case w of
        WIFSTOPPED g \<Rightarrow>
          (let (jid, s1) = add_job p cmd ''Stopped'' t s
           in Some (py_print (CHR 0x0A # ''['' @ str_int jid @ ''] '' @ str_int p @ '' Stopped'') s1))
      | WIFEXITED c \<Rightarrow> Some s
      | WIFSIGNALED g \<Rightarrow> Some s
      | WIFCONTINUED \<Rightarrow> launch_wait rs p cmd t s
      | WOTHER \<Rightarrow> launch_wait rs p cmd t s)"

text \<open>
  \<open>Some (Inr s)\<close>: the call returns; \<open>Some (Inl (e, s))\<close>: it raises \<open>e\<close>; \<open>None\<close>: it is
  still waiting when the answers of \<^verbatim>\<open>os.waitpid\<close> end. \<^verbatim>\<open>tokens[0]\<close> in the two
  messages raises \<^verbatim>\<open>IndexError\<close> on an empty list.
\<close>

definition launch_external ::
  "os_env \<Rightarrow> string list \<Rightarrow> bool \<Rightarrow> shell \<Rightarrow> (exn \<times> shell + shell) option" where
  "launch_external os tokens background s =
     (let cmd = join_sp tokens in
      case popen os tokens of
        FileNotFoundError \<Rightarrow>
          (case tokens of
             [] \<Rightarrow> Some (Inl (IndexError, s))
           | t0 # _ \<Rightarrow> Some (Inr (py_print (t0 @ '': command not found'') s)))
      | SpawnError e \<Rightarrow>
          (case tokens of
             [] \<Rightarrow> Some (Inl (IndexError, s))
           | t0 # _ \<Rightarrow> Some (Inr (py_print (''Error launching '' @ t0 @ '': '' @ e) s)))
      | Spawned p \<Rightarrow>
          if background then
            (let (jid, s1) = add_job p cmd ''Running'' (clock os) s
             in Some (Inr (py_print (''['' @ str_int jid @ ''] '' @ str_int p) s1)))
          else
            map_option (\<lambda>s2. Inr (s2\<lparr>foreground_pid := None\<rparr>))
              (launch_wait (waitpid os p) p cmd (clock os) (s\<lparr>foreground_pid := Some p\<rparr>)))"

text \<open>
  The keys of the table \<^verbatim>\<open>builtins\<close>. \<^verbatim>\<open>exit\<close>, \<^verbatim>\<open>kill\<close>, \<^verbatim>\<open>jobs\<close>, \<^verbatim>\<open>fg\<close> and \<^verbatim>\<open>bg\<close> are
  modelled here; the other ten are answers of \<open>fs_builtin\<close>.
\<close>

definition builtins :: "string list" where
  "builtins = [''cd'', ''pwd'', ''exit'', ''echo'', ''clear'', ''ls'', ''cat'', ''mkdir'',
               ''rmdir'', ''rm'', ''touch'', ''kill'', ''jobs'', ''fg'', ''bg'']"

text \<open>
  A call through \<^verbatim>\<open>builtins[cmd](tokens[1:])\<close> inside \<^verbatim>\<open>try ... except Exception\<close>.
  \<^verbatim>\<open>SystemExit\<close>, raised by \<^verbatim>\<open>builtin_exit\<close>, is not an \<^verbatim>\<open>Exception\<close> and passes through.
\<close>

definition run_builtin ::
  "os_env \<Rightarrow> string \<Rightarrow> string list \<Rightarrow> shell \<Rightarrow> (exn \<times> shell + shell) option" where
  "run_builtin os cmd args s =
     (if cmd = ''exit'' then Some (Inl (SystemExit, builtin_exit os args s))
      else if cmd = ''kill'' then Some (Inr (builtin_kill os args s))
      else if cmd = ''jobs'' then Some (Inr (builtin_jobs os args s))
      else if cmd = ''fg'' then map_option Inr (builtin_fg os args s)
      else if cmd = ''bg'' then Some (Inr (builtin_bg os args s))
      else (case fs_builtin os cmd args of
              (ls, None) \<Rightarrow> Some (Inr (foldl (\<lambda>s1 l. py_print l s1) s ls))
            | (ls, Some e) \<Rightarrow>
                Some (Inr (py_print (cmd @ '': error: '' @ e) (foldl (\<lambda>s1 l. py_print l s1) s ls)))))"

text \<open>
  The background marker: a last token \<open>&\<close> is dropped, a trailing \<open>&\<close> of the last
  token is cut off. The list is not empty.
\<close>

definition split_background :: "string list \<Rightarrow> string list \<times> bool" where
  "split_background tokens0 =
     (if last tokens0 = ''&'' then (butlast tokens0, True)
      else if endswith (last tokens0) ''&'' \<and> last tokens0 \<noteq> ''&''
        then (butlast tokens0 @ [butlast (last tokens0)], True)
      else (tokens0, False))"

text \<open>\<^verbatim>\<open>cmd = tokens[0]\<close> raises \<^verbatim>\<open>IndexError\<close> when no token is left.\<close>

definition parse_and_execute :: "os_env \<Rightarrow> string \<Rightarrow> shell \<Rightarrow> (exn \<times> shell + shell) option" where
  "parse_and_execute os line0 s =
     (let line = str_strip os line0 in
      if line = [] then Some (Inr s)
      else case shlex_split os line of
        Inl e \<Rightarrow> Some (Inr (py_print (''Parsing error: '' @ e) s))
      | Inr tokens0 \<Rightarrow>
          if tokens0 = [] then Some (Inr s)
          else
            (let (tokens, background) = split_background tokens0
             in case tokens of
                  [] \<Rightarrow> Some (Inl (IndexError, s))
                | cmd # args \<Rightarrow>
                    if cmd \<in> set builtins then run_builtin os cmd args s
                    else launch_external os tokens background s))"

subsection \<open>The read-eval loop\<close>

text \<open>
  What \<^verbatim>\<open>input(prompt())\<close> does at one turn of the loop: a line, with the answers of the
  operating system while it is executed and the clock of the pruning that follows; an
  \<^verbatim>\<open>EOFError\<close>; a \<^verbatim>\<open>KeyboardInterrupt\<close>; another exception, with its text.
\<close>

datatype input = Line string os_env real | EOFError | KeyboardInterrupt | InputError string

text \<open>\<open>None\<close>: the loop is waiting (for input, or for a foreground job).\<close>

fun main_loop :: "input list \<Rightarrow> shell \<Rightarrow> shell option" where
  "main_loop [] s = None"
| "main_loop (EOFError # rest) s = Some (py_print [] s)"
| "main_loop (KeyboardInterrupt # rest) s = main_loop rest (py_print [] s)"
| "main_loop (InputError e # rest) s = Some (py_print (''Shell error: '' @ e) s)"
| "main_loop (Line l os t # rest) s =
     (case parse_and_execute os l s of
        None \<Rightarrow> None
      | Some (Inl (SystemExit, s1)) \<Rightarrow> Some s1
      | Some (Inl (IndexError, s1)) \<Rightarrow> Some (py_print ''Shell error: list index out of range'' s1)
      | Some (Inr s1) \<Rightarrow> main_loop rest (prune_done_jobs t s1))"

definition banner :: string where
  "banner = ''myshell '' @ [CHR 0xE2, CHR 0x80, CHR 0x94] @ '' Deliverable 1 shell (type 'exit' to quit).''"

definition main :: "input list \<Rightarrow> shell option" where
  "main inputs = main_loop inputs (py_print banner init_shell)"

subsection \<open>Runs\<close>

text \<open>
  The three ways the state changes: a line through the dispatcher, a delivery of SIGCHLD
  with the children it reaps, and the pruner. A run takes them one after the other: the
  handler runs between two commands, not in the middle of one.
\<close>

datatype action = Command string os_env | Sigchld "(int \<times> wstatus) list" | Prune real

fun step :: "action \<Rightarrow> shell \<Rightarrow> (exn \<times> shell + shell) option" where
  "step (Command l os) s = parse_and_execute os l s"
| "step (Sigchld evs) s = Some (Inr (sigchld_handler evs s))"
| "step (Prune now) s = Some (Inr (prune_done_jobs now s))"

text \<open>
  The outcome of a run: the state when every step returns, the exception and the state
  where a step raises, \<open>None\<close> where a step does not return.
\<close>

fun run :: "action list \<Rightarrow> shell \<Rightarrow> (exn \<times> shell + shell) option" where
  "run [] s = Some (Inr s)"
| "run (a # as) s =
     (case step a s of
        Some (Inr s1) \<Rightarrow> run as s1
      | r \<Rightarrow> r)"

subsection \<open>Operating systems for the examples\<close>

text \<open>
  What \<^verbatim>\<open>int\<close> answers on the tokens of the examples: \<open>1\<close>, \<open>2\<close>, \<open>7\<close> and \<open>101\<close> are
  integers, \<open>x1\<close> is not. No example asks for another token.
\<close>

definition int_table :: "string \<Rightarrow> int option" where
  "int_table = map_of [(''1'', 1), (''2'', 2), (''7'', 7), (''101'', 101)]"

text \<open>
  The lines of the examples have no white space around them, so \<^verbatim>\<open>strip\<close> returns them
  as they are, and \<open>toks\<close> is what \<^verbatim>\<open>shlex.split\<close> returns for the line of the example.
  \<open>os_live toks\<close>: a spawn gives process 100, every signal call returns, and
  \<^verbatim>\<open>os.waitpid\<close> on one process raises at once.
  \<open>os_gone toks\<close>: no process is found any more, and no executable.
  \<open>os_stops toks\<close>: a spawn gives process 200, which the first \<^verbatim>\<open>os.waitpid\<close> reports
  stopped by signal 20.
\<close>

definition os_live :: "string list \<Rightarrow> os_env" where
  "os_live toks = \<lparr>clock = 0, os_getpgid = (\<lambda>p. Inr p), os_killpg = (\<lambda>g sg. None),
     os_kill = (\<lambda>p sg. None), popen = (\<lambda>ts. Spawned 100), waitpid = (\<lambda>p. [WRaise]),
     str_strip = (\<lambda>l. l), shlex_split = (\<lambda>l. Inr toks), int_of_str = int_table,
     fs_builtin = (\<lambda>c a. ([], None))\<rparr>"

definition os_gone :: "string list \<Rightarrow> os_env" where
  "os_gone toks = \<lparr>clock = 0, os_getpgid = (\<lambda>p. Inl ''[Errno 3] No such process''),
     os_killpg = (\<lambda>g sg. Some ''[Errno 3] No such process''),
     os_kill = (\<lambda>p sg. Some ''[Errno 3] No such process''),
     popen = (\<lambda>ts. FileNotFoundError), waitpid = (\<lambda>p. [WRaise]),
     str_strip = (\<lambda>l. l), shlex_split = (\<lambda>l. Inr toks), int_of_str = int_table,
     fs_builtin = (\<lambda>c a. ([], None))\<rparr>"


subsection \<open>States for the examples\<close>

text \<open>
  A table with an old running job, an old exited job and a young finished job, pruned
  at time 100: the first and the third stay, the second goes.
\<close>

definition three_jobs :: shell where
  "three_jobs = init_shell\<lparr>jobs :=
     [(1, \<lparr>pid = 100, cmdline = ''a'', status = ''Running'', start_time = 0, exitcode = None\<rparr>),
      (2, \<lparr>pid = 101, cmdline = ''b'', status = st_exited 0, start_time = 0, exitcode = Some 0\<rparr>),
      (3, \<lparr>pid = 102, cmdline = ''c'', status = ''Done'', start_time = 50, exitcode = None\<rparr>)],
     next_job_id := 4, pid_to_jid := [100 \<mapsto> 1], registered := [1, 2, 3]\<rparr>"


subsection \<open>Notions for the statements\<close>

text \<open>The keys of the table in order, with the counter and the history of registrations.\<close>

definition ids :: "shell \<Rightarrow> int list \<times> int \<times> int list" where
  "ids s = (map fst (jobs s), next_job_id s, registered s)"

text \<open>The state a call leaves, whether it returns or raises.\<close>

definition state_of :: "exn \<times> shell + shell \<Rightarrow> shell" where
  "state_of r = (case r of Inl (e, s) \<Rightarrow> s | Inr s \<Rightarrow> s)"


text \<open>Every key of the table is below the counter.\<close>

definition ids_ok :: "shell \<Rightarrow> bool" where
  "ids_ok s \<longleftrightarrow> (\<forall>k \<in> set (map fst (jobs s)). k < next_job_id s)"


text \<open>
  The statuses of a job that has not finished, and the agreement of the index with a
  table: the index holds the pid of a record under the record's key exactly when the
  record's status is \<open>Running\<close> or \<open>Stopped\<close>, and every entry of the index leads to a
  record with that pid.
\<close>

definition live :: "string \<Rightarrow> bool" where
  "live st \<longleftrightarrow> st = ''Running'' \<or> st = ''Stopped''"

definition index_agrees :: "(int \<rightharpoonup> job) \<Rightarrow> (int \<rightharpoonup> int) \<Rightarrow> bool" where
  "index_agrees m idx \<longleftrightarrow>
     (\<forall>jid j. m jid = Some j \<longrightarrow> (idx (pid j) = Some jid \<longleftrightarrow> live (status j)))
     \<and> (\<forall>p jid. idx p = Some jid \<longrightarrow> (\<exists>j. m jid = Some j \<and> pid j = p))"

definition index_inv :: "shell \<Rightarrow> bool" where
  "index_inv s \<longleftrightarrow>
     distinct (map fst (jobs s)) \<and> index_agrees (map_of (jobs s)) (pid_to_jid s)"

section \<open>Properties\<close>

subsection \<open>Auxiliary facts\<close>

lemma foldl_delete_filter:
  "foldl (\<lambda>js k. AList.delete k js) xs ks = filter (\<lambda>e. fst e \<notin> set ks) xs"
proof (induction ks arbitrary: xs)
  case Nil
  then show ?case by simp
next
  case (Cons k ks)
  have "AList.delete k xs = filter (\<lambda>e. fst e \<noteq> k) xs"
    by (induction xs) (auto simp: AList.delete_eq)
  then show ?case using Cons by (simp add: conj_commute)
qed

lemma prune_lambda:
  "(\<lambda>(jid, j). (startswith (status j) ''Exited'' \<or> startswith (status j) ''Signaled''
                 \<or> status j = ''Done'') \<and> now - start_time j > DONE_ENTRY_TTL) = prune_cond now"
  by (auto simp: prune_cond_def DONE_ENTRY_TTL_def fun_eq_iff)

lemma jobs_prune:
  "jobs (prune_done_jobs now s) =
     filter (\<lambda>e. fst e \<notin> fst ` set (filter (prune_cond now) (jobs s))) (jobs s)"
  by (simp add: prune_done_jobs_def foldl_delete_filter prune_lambda)

lemma prune_removes:
  assumes "map_of (jobs s) jid = Some j" and "prune_cond now (jid, j)"
  shows "jid \<notin> fst ` set (jobs (prune_done_jobs now s))"
proof -
  from assms(1) have "(jid, j) \<in> set (jobs s)" by (rule map_of_SomeD)
  with assms(2) have mem: "jid \<in> fst ` set (filter (prune_cond now) (jobs s))" by force
  show ?thesis
  proof
    assume "jid \<in> fst ` set (jobs (prune_done_jobs now s))"
    then obtain e where "e \<in> set (jobs (prune_done_jobs now s))" and "fst e = jid"
      by auto
    then have "jid \<notin> fst ` set (filter (prune_cond now) (jobs s))"
      unfolding jobs_prune by simp
    with mem show False by contradiction
  qed
qed

text \<open>With distinct keys, the pruner is a filter of the table, entry by entry.\<close>

lemma prune_done_jobs_filter:
  assumes "distinct (map fst (jobs s))"
  shows "jobs (prune_done_jobs now s) = filter (\<lambda>e. \<not> prune_cond now e) (jobs s)"
proof -
  have key: "fst e \<in> fst ` set (filter (prune_cond now) (jobs s)) \<longleftrightarrow> prune_cond now e"
    if "e \<in> set (jobs s)" for e
  proof
    assume "fst e \<in> fst ` set (filter (prune_cond now) (jobs s))"
    then obtain e' where e': "e' \<in> set (jobs s)" "prune_cond now e'" "fst e' = fst e"
      by auto
    from assms e'(1) that e'(3) have "e' = e"
      by (metis eq_key_imp_eq_value prod.collapse)
    with e'(2) show "prune_cond now e" by simp
  next
    assume "prune_cond now e"
    with that show "fst e \<in> fst ` set (filter (prune_cond now) (jobs s))" by force
  qed
  have "filter (\<lambda>e. fst e \<notin> fst ` set (filter (prune_cond now) (jobs s))) (jobs s)
          = filter (\<lambda>e. \<not> prune_cond now e) (jobs s)"
    by (rule filter_cong) (use key in auto)
  then show ?thesis by (simp add: jobs_prune)
qed

lemma startswith_exited [simp]: "startswith (st_exited c) ''Exited''"
  by (simp add: startswith_def st_exited_def)

lemma startswith_signaled [simp]: "startswith (st_signaled c) ''Signaled''"
  by (simp add: startswith_def st_signaled_def)

lemma not_done_running [simp]:
  "\<not> startswith ''Running'' ''Exited''" "\<not> startswith ''Running'' ''Signaled''"
  "\<not> startswith ''Stopped'' ''Exited''" "\<not> startswith ''Stopped'' ''Signaled''"
  by (simp_all add: startswith_def)

lemma add_job_fst [simp]: "fst (add_job p cmd st t s) = next_job_id s"
  by (simp add: add_job_def get_next_job_id_def)

lemma add_job_lookup [simp]:
  "map_of (jobs (snd (add_job p cmd st t s))) (next_job_id s) =
     Some \<lparr>pid = p, cmdline = cmd, status = st, start_time = t, exitcode = None\<rparr>"
  by (simp add: add_job_def get_next_job_id_def update_Some_unfold)

lemma add_job_index [simp]:
  "pid_to_jid (snd (add_job p cmd st t s)) p = Some (next_job_id s)"
  by (simp add: add_job_def get_next_job_id_def)



lemma py_print_fields [simp]:
  "jobs (py_print l s) = jobs s" "next_job_id (py_print l s) = next_job_id s"
  "pid_to_jid (py_print l s) = pid_to_jid s" "foreground_pid (py_print l s) = foreground_pid s"
  "out (py_print l s) = out s @ [Print l]" "registered (py_print l s) = registered s"
  by (simp_all add: py_print_def)

lemma emit_fields [simp]:
  "jobs (emit e s) = jobs s" "next_job_id (emit e s) = next_job_id s"
  "pid_to_jid (emit e s) = pid_to_jid s" "foreground_pid (emit e s) = foreground_pid s"
  "out (emit e s) = out s @ [e]" "registered (emit e s) = registered s"
  by (simp_all add: emit_def)

lemma map_fst_map_entry [simp]: "map fst (AList.map_entry k f xs) = map fst xs"
  by (induction xs) auto

lemma state_of_simps [simp]: "state_of (Inr s) = s" "state_of (Inl (e, s)) = s"
  by (simp_all add: state_of_def)

lemma ids_simps [simp]:
  "ids (py_print l s) = ids s" "ids (emit e s) = ids s"
  "ids (s\<lparr>pid_to_jid := m\<rparr>) = ids s" "ids (s\<lparr>foreground_pid := f\<rparr>) = ids s"
  "ids (s\<lparr>out := out'\<rparr>) = ids s"
  "ids (s\<lparr>jobs := AList.map_entry k g (jobs s)\<rparr>) = ids s"
  by (simp_all add: ids_def)

lemma ids_update_job_status [simp]: "ids (update_job_status p st ec s) = ids s"
  by (simp add: update_job_status_def ids_def Let_def split: option.splits)

lemma ids_mark_job_done [simp]: "ids (mark_job_done p ec s) = ids s"
  by (simp add: mark_job_done_def ids_def Let_def split: option.splits)

lemma ids_sigchld_handler [simp]: "ids (sigchld_handler evs s) = ids s"
proof (induction evs arbitrary: s)
  case Nil
  then show ?case by simp
next
  case (Cons ev evs)
  obtain p w where ev: "ev = (p, w)" by (cases ev)
  show ?case by (cases w) (simp_all add: ev Cons)
qed

lemma ids_killpg_of_pid: "killpg_of_pid os p sg s = Inr s' \<Longrightarrow> ids s' = ids s"
  by (auto simp: killpg_of_pid_def split: sum.splits option.splits)

lemma ids_foldl:
  assumes "\<And>x s. ids (f s x) = ids s"
  shows "ids (foldl f s xs) = ids s"
  by (induction xs arbitrary: s) (simp_all add: assms)

lemma ids_kill_token [simp]: "ids (kill_token os token s) = ids s"
  by (auto simp: kill_token_def split: option.splits sum.splits dest: ids_killpg_of_pid)

lemma ids_builtin_kill [simp]: "ids (builtin_kill os args s) = ids s"
  by (simp add: builtin_kill_def ids_foldl)

lemma ids_builtin_jobs [simp]: "ids (builtin_jobs os args s) = ids s"
  by (simp add: builtin_jobs_def ids_foldl split_def)

lemma ids_builtin_exit [simp]: "ids (builtin_exit os args s) = ids s"
proof -
  have "ids (builtin_exit os args s) = ids (py_print ''Exiting shell.'' s)"
    unfolding builtin_exit_def
    by (rule ids_foldl) (auto split: sum.splits dest: ids_killpg_of_pid)
  then show ?thesis by simp
qed



lemma ids_builtin_bg [simp]: "ids (builtin_bg os args s) = ids s"
  by (auto simp: builtin_bg_def Let_def split: sum.splits option.splits dest: ids_killpg_of_pid)












lemma prune_keeps:
  assumes "distinct (map fst (jobs s))" and "map_of (jobs s) jid = Some j"
    and "\<not> prune_cond now (jid, j)"
  shows "jid \<in> fst ` set (jobs (prune_done_jobs now s))"
proof -
  from assms(2) have "(jid, j) \<in> set (jobs s)" by (rule map_of_SomeD)
  with assms(3) have "(jid, j) \<in> set (jobs (prune_done_jobs now s))"
    by (simp add: prune_done_jobs_filter [OF assms(1)])
  then show ?thesis by force
qed

lemma running_not_pruned [simp]: "\<not> prune_cond now (jid, j\<lparr>status := ''Running''\<rparr>)"
  by (simp add: prune_cond_def)

lemma killpg_of_pid_fields:
  "killpg_of_pid os p sg s = Inr s' \<Longrightarrow>
     jobs s' = jobs s \<and> next_job_id s' = next_job_id s \<and> pid_to_jid s' = pid_to_jid s
     \<and> foreground_pid s' = foreground_pid s"
  by (auto simp: killpg_of_pid_def split: sum.splits option.splits)

lemma kill_token_registry:
  "jobs (kill_token os token s) = jobs s \<and> next_job_id (kill_token os token s) = next_job_id s
   \<and> pid_to_jid (kill_token os token s) = pid_to_jid s
   \<and> foreground_pid (kill_token os token s) = foreground_pid s"
  by (auto simp: kill_token_def killpg_of_pid_def py_print_def emit_def
           split: option.splits sum.splits)

lemma builtin_kill_registry:
  "jobs (builtin_kill os args s) = jobs s \<and> next_job_id (builtin_kill os args s) = next_job_id s
   \<and> pid_to_jid (builtin_kill os args s) = pid_to_jid s
   \<and> foreground_pid (builtin_kill os args s) = foreground_pid s"
proof -
  have "jobs (foldl (\<lambda>s1 token. kill_token os token s1) s args) = jobs s
      \<and> next_job_id (foldl (\<lambda>s1 token. kill_token os token s1) s args) = next_job_id s
      \<and> pid_to_jid (foldl (\<lambda>s1 token. kill_token os token s1) s args) = pid_to_jid s
      \<and> foreground_pid (foldl (\<lambda>s1 token. kill_token os token s1) s args) = foreground_pid s"
    by (induction args arbitrary: s) (simp_all add: kill_token_registry)
  then show ?thesis by (simp add: builtin_kill_def py_print_def)
qed

lemma split_background_nonempty:
  assumes "toks \<noteq> []" and "toks \<noteq> [''&'']"
  shows "fst (split_background toks) \<noteq> []"
proof (cases "last toks = ''&''")
  case True
  have "butlast toks \<noteq> []"
  proof
    assume "butlast toks = []"
    with assms(1) have "toks = [last toks]"
      by (metis append_butlast_last_id append_Nil)
    with True assms(2) show False by simp
  qed
  with True show ?thesis by (simp add: split_background_def)
next
  case False
  with assms(1) show ?thesis by (simp add: split_background_def)
qed

lemma dispatch:
  assumes "str_strip os line \<noteq> []" and "shlex_split os (str_strip os line) = Inr toks"
    and "toks \<noteq> []" and "split_background toks = (cmd # args, b)"
  shows "parse_and_execute os line s =
           (if cmd \<in> set builtins then run_builtin os cmd args s
            else launch_external os (cmd # args) b s)"
  using assms by (simp add: parse_and_execute_def Let_def)

lemma run_builtin_no_IndexError: "run_builtin os cmd args s \<noteq> Some (Inl (IndexError, s1))"
  by (auto simp: run_builtin_def split: prod.splits option.splits)

lemma run_builtin_SystemExit:
  "run_builtin os cmd args s = Some (Inl (SystemExit, s1)) \<Longrightarrow> cmd = ''exit''"
  by (auto simp: run_builtin_def split: prod.splits option.splits if_splits)

lemma launch_external_no_raise:
  "tokens \<noteq> [] \<Longrightarrow> launch_external os tokens b s \<noteq> Some (Inl x)"
  by (cases tokens) (auto simp: launch_external_def Let_def split_def split: spawn.splits)

lemma parse_and_execute_raises:
  assumes "parse_and_execute os line s = Some (Inl (e, s1))"
  shows "(\<exists>toks. shlex_split os (str_strip os line) = Inr toks \<and> toks \<noteq> []
            \<and> ((e = IndexError \<and> fst (split_background toks) = [] \<and> s1 = s)
               \<or> (e = SystemExit \<and> (\<exists>args. fst (split_background toks) = ''exit'' # args))))"
proof -
  from assms obtain toks where toks: "str_strip os line \<noteq> []"
    "shlex_split os (str_strip os line) = Inr toks" "toks \<noteq> []"
    by (auto simp: parse_and_execute_def Let_def split: if_splits sum.splits)
  show ?thesis
  proof (cases "fst (split_background toks)")
    case Nil
    with assms toks show ?thesis
      by (auto simp: parse_and_execute_def Let_def split_def)
  next
    case (Cons cmd args)
    then have sb: "split_background toks = (cmd # args, snd (split_background toks))"
      by (metis prod.collapse)
    note d = dispatch [OF toks sb, of s]
    show ?thesis
    proof (cases "cmd \<in> set builtins")
      case True
      with d assms have rb: "run_builtin os cmd args s = Some (Inl (e, s1))" by simp
      with run_builtin_no_IndexError [of os cmd args s s1] have "e = SystemExit"
        by (cases e) auto
      with rb run_builtin_SystemExit [of os cmd args s s1] have "cmd = ''exit''" by simp
      with \<open>e = SystemExit\<close> toks Cons show ?thesis by auto
    next
      case False
      with d assms have "launch_external os (cmd # args) (snd (split_background toks)) s
                           = Some (Inl (e, s1))"
        by simp
      with launch_external_no_raise [of "cmd # args" os "snd (split_background toks)" s "(e, s1)"]
      show ?thesis by simp
    qed
  qed
qed


subsection \<open>The reaper and a child killed by a signal\<close>

text \<open>
  C2. The claim: for a child terminated by a signal, the reaper leaves the status
  \<open>Signaled(signal)\<close>, removes the entry of the pid index, and the listing shows
  \<open>Signaled(signal)\<close>. The handler writes that status through \<^verbatim>\<open>update_job_status\<close>, and
  \<^verbatim>\<open>mark_job_done(pid, exitcode=None)\<close> then overwrites it with \<open>Done\<close>. Here: a
  background job with process 100 is launched, SIGCHLD reports that signal 9 killed it,
  and \<^verbatim>\<open>jobs\<close> is typed. The status is \<open>Done\<close>, the index entry is gone, and the
  listing prints \<open>Done\<close>.
\<close>

theorem reaper_signaled_status_is_Done:
  "(case run [Command ''sleep 100 &'' (os_live [''sleep'', ''100'', ''&'']),
              Sigchld [(100, WIFSIGNALED 9)],
              Command ''jobs'' (os_live [''jobs''])] init_shell of
      Some (Inr s) \<Rightarrow>
        map_option status (find_job_by_jid 1 s) = Some ''Done''
        \<and> map_option status (find_job_by_jid 1 s) \<noteq> Some (st_signaled 9)
        \<and> pid_to_jid s 100 = None
        \<and> out s = [Print ''[1] 100'',
                    Print (''[1] 100 Done'' @ [CHR 0x09] @ ''sleep 100 (age 0s)'')]
    | _ \<Rightarrow> False)"
  by code_simp

subsection \<open>The pruner\<close>

text \<open>
  C6. For every call of the pruner at time \<open>now\<close> and every entry of the table: an entry
  whose status is \<open>Running\<close> or \<open>Stopped\<close> stays, whatever its age; an entry whose status
  is \<open>Exited(c)\<close>, \<open>Signaled(g)\<close> or \<open>Done\<close> and whose age \<open>now - start_time\<close> exceeds 60
  is removed; such an entry whose age does not exceed 60 stays. The keys of the table
  are distinct, as those of a dictionary are.
\<close>

theorem prune_done_jobs_retention:
  assumes "distinct (map fst (jobs s))" and "(jid, j) \<in> set (jobs s)"
  shows "(status j = ''Running'' \<or> status j = ''Stopped''
            \<longrightarrow> (jid, j) \<in> set (jobs (prune_done_jobs now s)))
       \<and> (((\<exists>c. status j = st_exited c) \<or> (\<exists>g. status j = st_signaled g) \<or> status j = ''Done'')
            \<and> now - start_time j > 60
            \<longrightarrow> jid \<notin> fst ` set (jobs (prune_done_jobs now s)))
       \<and> (((\<exists>c. status j = st_exited c) \<or> (\<exists>g. status j = st_signaled g) \<or> status j = ''Done'')
            \<and> \<not> now - start_time j > 60
            \<longrightarrow> (jid, j) \<in> set (jobs (prune_done_jobs now s)))"
proof -
  note flt = prune_done_jobs_filter [OF assms(1), of now]
  have a: "(jid, j) \<in> set (jobs (prune_done_jobs now s))" if "\<not> prune_cond now (jid, j)"
    using that assms(2) by (simp add: flt)
  have b: "jid \<notin> fst ` set (jobs (prune_done_jobs now s))" if "prune_cond now (jid, j)"
    using that assms(1,2) by (intro prune_removes [where j = j]) simp_all
  show ?thesis
    by (intro conjI impI; (rule a | rule b); auto simp: prune_cond_def)
qed

theorem prune_done_jobs_retention_witness:
  "distinct (map fst (jobs three_jobs))
   \<and> (2, \<lparr>pid = 101, cmdline = ''b'', status = st_exited 0, start_time = 0, exitcode = Some 0\<rparr>)
        \<in> set (jobs three_jobs)
   \<and> 2 \<notin> fst ` set (jobs (prune_done_jobs 100 three_jobs))
   \<and> map fst (jobs (prune_done_jobs 100 three_jobs)) = [1, 3]"
proof -
  have d: "distinct (map fst (jobs three_jobs))"
    by (simp add: three_jobs_def)
  have m: "(2, \<lparr>pid = 101, cmdline = ''b'', status = st_exited 0, start_time = 0, exitcode = Some 0\<rparr>)
             \<in> set (jobs three_jobs)"
    by (simp add: three_jobs_def)
  have k: "map fst (jobs (prune_done_jobs 100 three_jobs)) = [1, 3]"
    by code_simp
  from prune_done_jobs_retention [OF d m, of 100] d m k show ?thesis
    by auto
qed

subsection \<open>Age is counted from creation\<close>



subsection \<open>Job ids\<close>



subsection \<open>The builtin kill\<close>

text \<open>
  C7, as the code has it. For each token of \<^verbatim>\<open>kill\<close>: a token that does not begin with
  \<open>%\<close> and that \<^verbatim>\<open>int\<close> reads as \<open>p\<close> is passed as it is to \<^verbatim>\<open>os.kill(p, SIGTERM)\<close>, and the
  shell resolves no process group for it; a reference \<open>%N\<close> to a job of the table sends
  SIGTERM to the process group of the job's pid, through \<^verbatim>\<open>os.getpgid\<close> and \<^verbatim>\<open>os.killpg\<close>;
  an unknown \<open>%N\<close> prints \<open>kill: % N: no such job\<close>; a token that \<^verbatim>\<open>int\<close> rejects prints
  \<open>kill: invalid pid/job: token\<close>, and nothing is sent for it. No call of \<^verbatim>\<open>kill\<close>
  changes the table, the counter or the index.
\<close>

theorem builtin_kill_cases:
  "(\<not> startswith token ''%'' \<and> int_of_str os token = Some p \<and> os_kill os p SIGTERM = None
      \<longrightarrow> kill_token os token s = emit (Kill p SIGTERM) s)
   \<and> (startswith token ''%'' \<and> int_of_str os (drop 1 token) = Some jid
        \<and> find_job_by_jid jid s = Some j
        \<and> os_getpgid os (pid j) = Inr g \<and> os_killpg os g SIGTERM = None
      \<longrightarrow> kill_token os token s = emit (Killpg g SIGTERM) s)
   \<and> (startswith token ''%'' \<and> int_of_str os (drop 1 token) = Some jid
        \<and> find_job_by_jid jid s = None
      \<longrightarrow> kill_token os token s = py_print (''kill: % '' @ str_int jid @ '': no such job'') s)
   \<and> ((startswith token ''%'' \<and> int_of_str os (drop 1 token) = None)
        \<or> (\<not> startswith token ''%'' \<and> int_of_str os token = None)
      \<longrightarrow> kill_token os token s = py_print (''kill: invalid pid/job: '' @ token) s)
   \<and> jobs (builtin_kill os args s) = jobs s \<and> next_job_id (builtin_kill os args s) = next_job_id s
   \<and> pid_to_jid (builtin_kill os args s) = pid_to_jid s"
proof -
  have 1: "\<not> startswith token ''%'' \<and> int_of_str os token = Some p \<and> os_kill os p SIGTERM = None
      \<longrightarrow> kill_token os token s = emit (Kill p SIGTERM) s"
    by (simp add: kill_token_def)
  have 2: "startswith token ''%'' \<and> int_of_str os (drop 1 token) = Some jid
        \<and> find_job_by_jid jid s = Some j
        \<and> os_getpgid os (pid j) = Inr g \<and> os_killpg os g SIGTERM = None
      \<longrightarrow> kill_token os token s = emit (Killpg g SIGTERM) s"
    by (simp add: kill_token_def killpg_of_pid_def)
  have 3: "startswith token ''%'' \<and> int_of_str os (drop 1 token) = Some jid
        \<and> find_job_by_jid jid s = None
      \<longrightarrow> kill_token os token s = py_print (''kill: % '' @ str_int jid @ '': no such job'') s"
    by (simp add: kill_token_def)
  have 4: "(startswith token ''%'' \<and> int_of_str os (drop 1 token) = None)
        \<or> (\<not> startswith token ''%'' \<and> int_of_str os token = None)
      \<longrightarrow> kill_token os token s = py_print (''kill: invalid pid/job: '' @ token) s"
    by (auto simp: kill_token_def)
  from 1 2 3 4 builtin_kill_registry [of os args s] show ?thesis
    by blast
qed

theorem builtin_kill_cases_witness:
  "startswith ''%7'' ''%'' \<and> int_of_str (os_live []) (drop 1 ''%7'') = Some 7
   \<and> find_job_by_jid 7 three_jobs = None
   \<and> kill_token (os_live []) ''%7'' three_jobs = py_print ''kill: % 7: no such job'' three_jobs
   \<and> jobs (builtin_kill (os_live []) [''%7''] three_jobs) = jobs three_jobs
   \<and> out (builtin_kill (os_live []) [''%7'', ''x1'', ''%1'', ''101''] three_jobs)
       = [Print ''kill: % 7: no such job'', Print ''kill: invalid pid/job: x1'',
          Killpg 100 SIGTERM, Kill 101 SIGTERM]"
proof -
  have a: "startswith ''%7'' ''%''" by (simp add: startswith_def)
  have b: "int_of_str (os_live []) (drop 1 ''%7'') = Some 7" by code_simp
  have c: "find_job_by_jid 7 three_jobs = None" by (simp add: find_job_by_jid_def three_jobs_def)
  have d: "str_int 7 = ''7''" by code_simp
  have e: "out (builtin_kill (os_live []) [''%7'', ''x1'', ''%1'', ''101''] three_jobs)
       = [Print ''kill: % 7: no such job'', Print ''kill: invalid pid/job: x1'',
          Killpg 100 SIGTERM, Kill 101 SIGTERM]"
    by code_simp
  from builtin_kill_cases [of "''%7''" "os_live []" 0 three_jobs 7
      "\<lparr>pid = 0, cmdline = [], status = [], start_time = 0, exitcode = None\<rparr>" 0 "[''%7'']"]
    a b c d e
  show ?thesis by simp
qed

text \<open>
  The claim of C7 says the signal for a bare process id goes to the resolved process
  group. \<^verbatim>\<open>kill 101\<close> makes one call \<^verbatim>\<open>os.kill(101, SIGTERM)\<close> and none of \<^verbatim>\<open>os.killpg\<close>.
\<close>

theorem kill_bare_pid_single_process:
  "out (builtin_kill (os_live []) [''101''] three_jobs) = [Kill 101 SIGTERM]
   \<and> out (builtin_kill (os_live []) [''101''] three_jobs) \<noteq> [Killpg 101 SIGTERM]"
  by code_simp

subsection \<open>A launch that fails\<close>

text \<open>
  C8. When the spawn of a non-empty argument vector fails, because the executable is
  not found or for another reason, the launcher prints one line that names the first
  argument, and the table, the counter, the index and the foreground slot are as
  before.
\<close>

theorem launch_failure_no_job:
  assumes "tokens \<noteq> []"
    and "popen os tokens = FileNotFoundError \<or> popen os tokens = SpawnError e"
  shows "\<exists>s'. launch_external os tokens background s = Some (Inr s')
           \<and> jobs s' = jobs s \<and> next_job_id s' = next_job_id s \<and> pid_to_jid s' = pid_to_jid s
           \<and> foreground_pid s' = foreground_pid s
           \<and> out s' = out s @ [Print (if popen os tokens = FileNotFoundError
                                      then hd tokens @ '': command not found''
                                      else ''Error launching '' @ hd tokens @ '': '' @ e)]"
  using assms
  by (cases tokens) (auto simp: launch_external_def py_print_def)

theorem launch_failure_no_job_witness:
  "[''nosuchprog'', ''-x''] \<noteq> []
   \<and> popen (os_gone []) [''nosuchprog'', ''-x''] = FileNotFoundError
   \<and> (\<exists>s'. launch_external (os_gone []) [''nosuchprog'', ''-x''] True three_jobs = Some (Inr s')
           \<and> jobs s' = jobs three_jobs \<and> next_job_id s' = 4
           \<and> out s' = [Print ''nosuchprog: command not found''])"
proof -
  have a: "[''nosuchprog'', ''-x''] \<noteq> []"
    by simp
  have c: "popen (os_gone []) [''nosuchprog'', ''-x''] = FileNotFoundError"
    by (simp add: os_gone_def)
  then have b: "popen (os_gone []) [''nosuchprog'', ''-x''] = FileNotFoundError
             \<or> popen (os_gone []) [''nosuchprog'', ''-x''] = SpawnError []"
    by simp
  have d: "next_job_id three_jobs = 4" "out three_jobs = []"
    by (simp_all add: three_jobs_def init_shell_def)
  from launch_failure_no_job [OF a b, of True three_jobs]
  obtain s' where "launch_external (os_gone []) [''nosuchprog'', ''-x''] True three_jobs = Some (Inr s')"
    "jobs s' = jobs three_jobs" "next_job_id s' = 4"
    "out s' = [Print ''nosuchprog: command not found'']"
    unfolding c d by auto
  with a c show ?thesis by blast
qed


subsection \<open>Resuming a finished job\<close>

text \<open>
  C9, as the code has it. For a record \<open>j\<close> that is in the table under \<open>jid\<close> (finished
  or not) and a token that \<^verbatim>\<open>int\<close> reads as \<open>jid\<close>: \<^verbatim>\<open>fg jid\<close> sets its status to \<open>Running\<close> whatever \<^verbatim>\<open>os.killpg\<close> answers; when
  the wait then raises (the child is gone), the record stays \<open>Running\<close>, the index is
  untouched, and no later pruning removes the record. \<^verbatim>\<open>bg jid\<close> sets the status to
  \<open>Running\<close> and writes the index entry only when SIGCONT is delivered; when
  \<^verbatim>\<open>os.getpgid\<close> or \<^verbatim>\<open>os.killpg\<close> raises, it prints \<open>bg:\<close> with the error and changes
  nothing else.
\<close>

theorem resume_finished_record:
  assumes "distinct (map fst (jobs s))" and "int_of_str os a = Some jid"
    and "map_of (jobs s) jid = Some j"
  shows "(\<forall>ws. waitpid os (pid j) = WRaise # ws \<longrightarrow>
            (\<exists>s'. builtin_fg os [a] s = Some s'
               \<and> map_of (jobs s') jid = Some (j\<lparr>status := ''Running''\<rparr>)
               \<and> pid_to_jid s' = pid_to_jid s
               \<and> (\<forall>now. jid \<in> fst ` set (jobs (prune_done_jobs now s')))))
       \<and> (\<forall>g. os_getpgid os (pid j) = Inr g \<and> os_killpg os g SIGCONT = None \<longrightarrow>
            map_of (jobs (builtin_bg os [a] s)) jid = Some (j\<lparr>status := ''Running''\<rparr>)
            \<and> pid_to_jid (builtin_bg os [a] s) (pid j) = Some jid
            \<and> (\<forall>now. jid \<in> fst ` set (jobs (prune_done_jobs now (builtin_bg os [a] s)))))
       \<and> (\<forall>e. os_getpgid os (pid j) = Inl e
               \<or> (\<exists>g. os_getpgid os (pid j) = Inr g \<and> os_killpg os g SIGCONT = Some e) \<longrightarrow>
            builtin_bg os [a] s = py_print (''bg: '' @ e) s)"
proof (intro conjI allI impI)
  fix ws
  assume w: "waitpid os (pid j) = WRaise # ws"
  define s1 where "s1 = (case killpg_of_pid os (pid j) SIGCONT s of Inl e \<Rightarrow> s | Inr s' \<Rightarrow> s')"
  define s' where "s' = s1\<lparr>jobs := AList.map_entry jid (\<lambda>j. j\<lparr>status := ''Running''\<rparr>) (jobs s1),
                          foreground_pid := None\<rparr>"
  have s1: "jobs s1 = jobs s" "pid_to_jid s1 = pid_to_jid s"
    by (auto simp: s1_def dest: killpg_of_pid_fields split: sum.splits)
  have fg: "builtin_fg os [a] s = Some s'"
    using assms(2,3) w
    by (simp add: builtin_fg_def select_jid_def find_job_by_jid_def Let_def s'_def s1_def)
  have look: "map_of (jobs s') jid = Some (j\<lparr>status := ''Running''\<rparr>)"
    using assms(3) by (simp add: s'_def s1 map_of_map_entry)
  have dist: "distinct (map fst (jobs s'))"
    using assms(1) by (simp add: s'_def s1 distinct_map_entry)
  have "\<forall>now. jid \<in> fst ` set (jobs (prune_done_jobs now s'))"
    using prune_keeps [OF dist look] by simp
  with fg look s1 show "\<exists>s'. builtin_fg os [a] s = Some s'
               \<and> map_of (jobs s') jid = Some (j\<lparr>status := ''Running''\<rparr>)
               \<and> pid_to_jid s' = pid_to_jid s
               \<and> (\<forall>now. jid \<in> fst ` set (jobs (prune_done_jobs now s')))"
    by (auto simp: s'_def)
next
  fix g
  assume ok: "os_getpgid os (pid j) = Inr g \<and> os_killpg os g SIGCONT = None"
  define s' where "s' = builtin_bg os [a] s"
  have jobs': "jobs s' = AList.map_entry jid (\<lambda>j. j\<lparr>status := ''Running''\<rparr>) (jobs s)"
    and idx: "pid_to_jid s' (pid j) = Some jid"
    using assms(2,3) ok
    by (simp_all add: s'_def builtin_bg_def select_jid_def find_job_by_jid_def killpg_of_pid_def Let_def)
  have look: "map_of (jobs s') jid = Some (j\<lparr>status := ''Running''\<rparr>)"
    using assms(3) by (simp add: jobs' map_of_map_entry)
  have dist: "distinct (map fst (jobs s'))"
    using assms(1) by (simp add: jobs' distinct_map_entry)
  have keep: "jid \<in> fst ` set (jobs (prune_done_jobs now s'))" for now
    using prune_keeps [OF dist look] by simp
  show "map_of (jobs (builtin_bg os [a] s)) jid = Some (j\<lparr>status := ''Running''\<rparr>)"
    using look by (simp add: s'_def)
  show "pid_to_jid (builtin_bg os [a] s) (pid j) = Some jid"
    using idx by (simp add: s'_def)
  show "jid \<in> fst ` set (jobs (prune_done_jobs now (builtin_bg os [a] s)))" for now
    using keep by (simp add: s'_def)
next
  fix e
  assume "os_getpgid os (pid j) = Inl e
               \<or> (\<exists>g. os_getpgid os (pid j) = Inr g \<and> os_killpg os g SIGCONT = Some e)"
  then show "builtin_bg os [a] s = py_print (''bg: '' @ e) s"
    using assms(2,3)
    by (auto simp: builtin_bg_def select_jid_def find_job_by_jid_def killpg_of_pid_def)
qed


text \<open>Job 2 of \<open>three_jobs\<close> has exited, and its process is gone.\<close>

theorem resume_finished_record_witness:
  "distinct (map fst (jobs three_jobs)) \<and> int_of_str (os_gone []) ''2'' = Some 2
   \<and> map_of (jobs three_jobs) 2
        = Some \<lparr>pid = 101, cmdline = ''b'', status = st_exited 0, start_time = 0, exitcode = Some 0\<rparr>
   \<and> waitpid (os_gone []) 101 = [WRaise]
   \<and> os_getpgid (os_gone []) 101 = Inl ''[Errno 3] No such process''
   \<and> (\<exists>s'. builtin_fg (os_gone []) [''2''] three_jobs = Some s'
          \<and> map_of (jobs s') 2
               = Some \<lparr>pid = 101, cmdline = ''b'', status = ''Running'', start_time = 0, exitcode = Some 0\<rparr>
          \<and> pid_to_jid s' = pid_to_jid three_jobs
          \<and> (\<forall>now. 2 \<in> fst ` set (jobs (prune_done_jobs now s'))))
   \<and> builtin_bg (os_gone []) [''2''] three_jobs
        = py_print ''bg: [Errno 3] No such process'' three_jobs"
proof -
  have a: "distinct (map fst (jobs three_jobs))"
    by (simp add: three_jobs_def)
  have b: "int_of_str (os_gone []) ''2'' = Some 2"
    by code_simp
  have c: "map_of (jobs three_jobs) 2
        = Some \<lparr>pid = 101, cmdline = ''b'', status = st_exited 0, start_time = 0, exitcode = Some 0\<rparr>"
    by (simp add: three_jobs_def)
  have d: "waitpid (os_gone []) 101 = [WRaise]"
    "os_getpgid (os_gone []) 101 = Inl ''[Errno 3] No such process''"
    by (simp_all add: os_gone_def)
  from resume_finished_record [OF a b c] d
  show ?thesis using a b c by simp
qed

text \<open>
  The claim of C9 says that \<^verbatim>\<open>bg\<close> on a finished record does not reject the request
  and sets the record back to \<open>Running\<close> although the process no longer exists. With the
  process gone, \<^verbatim>\<open>bg 2\<close> prints an error, and the record keeps its status \<open>Exited(0)\<close>.
\<close>

theorem bg_finished_record_rejected:
  "map_option status (find_job_by_jid 2 (builtin_bg (os_gone []) [''2''] three_jobs))
     = Some ''Exited(0)''
   \<and> pid_to_jid (builtin_bg (os_gone []) [''2''] three_jobs) 101 = None
   \<and> out (builtin_bg (os_gone []) [''2''] three_jobs) = [Print ''bg: [Errno 3] No such process'']"
  by code_simp

subsection \<open>The pid index and the status\<close>

text \<open>
  C1. The claim: at every point the public operations reach, the index has an entry
  for a job's pid if and only if the job's status is \<open>Running\<close> or \<open>Stopped\<close>. Here: a
  background job with process 100 is launched, SIGCHLD reports its exit (the status
  becomes \<open>Exited(0)\<close> and the index entry is removed), and \<^verbatim>\<open>fg 1\<close> is typed while the
  record is still in the table. \<^verbatim>\<open>builtin_fg\<close> sets the status to \<open>Running\<close>, the wait
  raises because the child is gone, and the record is left \<open>Running\<close> with no index
  entry for its pid.
\<close>

theorem fg_finished_job_breaks_index:
  "(case run [Command ''sleep 1 &'' (os_live [''sleep'', ''1'', ''&'']),
              Sigchld [(100, WIFEXITED 0)],
              Command ''fg 1'' (os_gone [''fg'', ''1''])] init_shell of
      Some (Inr s) \<Rightarrow>
        map_option status (find_job_by_jid 1 s) = Some ''Running''
        \<and> map_option pid (find_job_by_jid 1 s) = Some 100
        \<and> pid_to_jid s 100 = None
    | _ \<Rightarrow> False)"
  by code_simp


subsection \<open>Errors and the loop\<close>

text \<open>
  C4, as the code has it. For every line whose tokens are not the lone background
  marker \<open>&\<close>: the dispatcher does not raise \<^verbatim>\<open>IndexError\<close>, and it raises \<^verbatim>\<open>SystemExit\<close>
  only for the command \<^verbatim>\<open>exit\<close>; whenever it returns, the loop prunes and goes on with
  the next input. A parse failure, a missing, malformed or unknown job id given to
  \<^verbatim>\<open>fg\<close> or \<^verbatim>\<open>bg\<close>, a continue signal that fails in \<^verbatim>\<open>bg\<close>, and a failed launch each
  print exactly one line and change nothing else. \<^verbatim>\<open>kill\<close> without a token prints one
  line; otherwise it handles its tokens in order, and each token that names no job,
  that \<^verbatim>\<open>int\<close> rejects, or whose signal call raises, adds exactly one line. A continue
  signal that fails in \<^verbatim>\<open>fg\<close> is swallowed: when the wait then raises as well, the
  command returns having printed nothing.
\<close>

theorem dispatcher_handles_errors:
  assumes "shlex_split os (str_strip os line) \<noteq> Inr [''&'']"
  shows "(\<forall>s1. parse_and_execute os line s \<noteq> Some (Inl (IndexError, s1)))
       \<and> (\<forall>s1. parse_and_execute os line s = Some (Inl (SystemExit, s1)) \<longrightarrow>
             (\<exists>toks args. shlex_split os (str_strip os line) = Inr toks
                \<and> fst (split_background toks) = ''exit'' # args))
       \<and> (\<forall>s1. parse_and_execute os line s = Some (Inr s1) \<longrightarrow>
             main_loop (Line line os t # rest) s = main_loop rest (prune_done_jobs t s1))
       \<and> (\<forall>e. str_strip os line \<noteq> [] \<and> shlex_split os (str_strip os line) = Inl e \<longrightarrow>
             parse_and_execute os line s = Some (Inr (py_print (''Parsing error: '' @ e) s)))
       \<and> (\<forall>tk s1.
             (\<forall>jid. startswith tk ''%'' \<and> int_of_str os (drop 1 tk) = Some jid
                  \<and> find_job_by_jid jid s1 = None \<longrightarrow>
                kill_token os tk s1 = py_print (''kill: % '' @ str_int jid @ '': no such job'') s1)
           \<and> ((startswith tk ''%'' \<and> int_of_str os (drop 1 tk) = None)
                  \<or> (\<not> startswith tk ''%'' \<and> int_of_str os tk = None) \<longrightarrow>
                kill_token os tk s1 = py_print (''kill: invalid pid/job: '' @ tk) s1)
           \<and> (\<forall>jid j e. startswith tk ''%'' \<and> int_of_str os (drop 1 tk) = Some jid
                  \<and> find_job_by_jid jid s1 = Some j
                  \<and> killpg_of_pid os (pid j) SIGTERM s1 = Inl e \<longrightarrow>
                kill_token os tk s1 = py_print (''kill: '' @ e) s1)
           \<and> (\<forall>p e. \<not> startswith tk ''%'' \<and> int_of_str os tk = Some p
                  \<and> os_kill os p SIGTERM = Some e \<longrightarrow>
                kill_token os tk s1 = py_print (''kill: '' @ e) s1))
       \<and> (\<forall>toks cmd args b.
             str_strip os line \<noteq> [] \<and> shlex_split os (str_strip os line) = Inr toks \<and> toks \<noteq> []
             \<and> split_background toks = (cmd # args, b) \<longrightarrow>
             (cmd = ''kill'' \<and> args = [] \<longrightarrow>
                parse_and_execute os line s = Some (Inr (py_print ''kill: missing pid/job'' s)))
           \<and> (cmd = ''kill'' \<and> args \<noteq> [] \<longrightarrow>
                parse_and_execute os line s
                  = Some (Inr (foldl (\<lambda>s1 tk. kill_token os tk s1) s args)))
           \<and> ((cmd = ''fg'' \<or> cmd = ''bg'') \<and> args = [] \<and> jobs s = [] \<longrightarrow>
                parse_and_execute os line s = Some (Inr (py_print (cmd @ '': no current job'') s)))
           \<and> (\<forall>a as. (cmd = ''fg'' \<or> cmd = ''bg'') \<and> args = a # as \<and> int_of_str os a = None \<longrightarrow>
                parse_and_execute os line s = Some (Inr (py_print (cmd @ '': bad job id'') s)))
           \<and> (\<forall>a as jid. (cmd = ''fg'' \<or> cmd = ''bg'') \<and> args = a # as
                  \<and> int_of_str os a = Some jid \<and> find_job_by_jid jid s = None \<longrightarrow>
                parse_and_execute os line s
                  = Some (Inr (py_print (cmd @ '': job '' @ str_int jid @ '' not found'') s)))
           \<and> (\<forall>a as jid j e. cmd = ''bg'' \<and> args = a # as \<and> int_of_str os a = Some jid
                  \<and> find_job_by_jid jid s = Some j
                  \<and> killpg_of_pid os (pid j) SIGCONT s = Inl e \<longrightarrow>
                parse_and_execute os line s = Some (Inr (py_print (''bg: '' @ e) s)))
           \<and> (\<forall>a as jid j e ws. cmd = ''fg'' \<and> args = a # as \<and> int_of_str os a = Some jid
                  \<and> find_job_by_jid jid s = Some j
                  \<and> killpg_of_pid os (pid j) SIGCONT s = Inl e
                  \<and> waitpid os (pid j) = WRaise # ws \<longrightarrow>
                (\<exists>s1. parse_and_execute os line s = Some (Inr s1) \<and> out s1 = out s))
           \<and> (cmd \<notin> set builtins \<and> popen os (cmd # args) = FileNotFoundError \<longrightarrow>
                parse_and_execute os line s
                  = Some (Inr (py_print (cmd @ '': command not found'') s)))
           \<and> (\<forall>e. cmd \<notin> set builtins \<and> popen os (cmd # args) = SpawnError e \<longrightarrow>
                parse_and_execute os line s
                  = Some (Inr (py_print (''Error launching '' @ cmd @ '': '' @ e) s))))"
proof (intro conjI allI impI)
  fix s1
  show "parse_and_execute os line s \<noteq> Some (Inl (IndexError, s1))"
  proof
    assume "parse_and_execute os line s = Some (Inl (IndexError, s1))"
    from parse_and_execute_raises [OF this] obtain toks where
      "shlex_split os (str_strip os line) = Inr toks" "toks \<noteq> []" "fst (split_background toks) = []"
      by auto
    with assms split_background_nonempty [of toks] show False by auto
  qed
next
  fix s1
  assume "parse_and_execute os line s = Some (Inl (SystemExit, s1))"
  from parse_and_execute_raises [OF this]
  show "\<exists>toks args. shlex_split os (str_strip os line) = Inr toks
                \<and> fst (split_background toks) = ''exit'' # args"
    by auto
next
  fix s1
  assume "parse_and_execute os line s = Some (Inr s1)"
  then show "main_loop (Line line os t # rest) s = main_loop rest (prune_done_jobs t s1)"
    by simp
next
  fix e
  assume "str_strip os line \<noteq> [] \<and> shlex_split os (str_strip os line) = Inl e"
  then show "parse_and_execute os line s = Some (Inr (py_print (''Parsing error: '' @ e) s))"
    by (simp add: parse_and_execute_def)
next
  fix tk s1 jid
  assume "startswith tk ''%'' \<and> int_of_str os (drop 1 tk) = Some jid
            \<and> find_job_by_jid jid s1 = None"
  then show "kill_token os tk s1 = py_print (''kill: % '' @ str_int jid @ '': no such job'') s1"
    by (simp add: kill_token_def)
next
  fix tk s1
  assume "(startswith tk ''%'' \<and> int_of_str os (drop 1 tk) = None)
            \<or> (\<not> startswith tk ''%'' \<and> int_of_str os tk = None)"
  then show "kill_token os tk s1 = py_print (''kill: invalid pid/job: '' @ tk) s1"
    by (auto simp: kill_token_def)
next
  fix tk s1 jid j e
  assume "startswith tk ''%'' \<and> int_of_str os (drop 1 tk) = Some jid
            \<and> find_job_by_jid jid s1 = Some j
            \<and> killpg_of_pid os (pid j) SIGTERM s1 = Inl e"
  then show "kill_token os tk s1 = py_print (''kill: '' @ e) s1"
    by (simp add: kill_token_def)
next
  fix tk s1 p e
  assume "\<not> startswith tk ''%'' \<and> int_of_str os tk = Some p \<and> os_kill os p SIGTERM = Some e"
  then show "kill_token os tk s1 = py_print (''kill: '' @ e) s1"
    by (simp add: kill_token_def)
next
  fix toks cmd args b
  assume h: "str_strip os line \<noteq> [] \<and> shlex_split os (str_strip os line) = Inr toks \<and> toks \<noteq> []
             \<and> split_background toks = (cmd # args, b)"
  have d: "parse_and_execute os line s =
           (if cmd \<in> set builtins then run_builtin os cmd args s
            else launch_external os (cmd # args) b s)"
    using h dispatch [of os line toks cmd args b s] by blast
  {
    assume "cmd = ''kill'' \<and> args = []"
    then show "parse_and_execute os line s = Some (Inr (py_print ''kill: missing pid/job'' s))"
      by (simp add: d builtins_def run_builtin_def builtin_kill_def)
  next
    assume "cmd = ''kill'' \<and> args \<noteq> []"
    then show "parse_and_execute os line s
                 = Some (Inr (foldl (\<lambda>s1 tk. kill_token os tk s1) s args))"
      by (simp add: d builtins_def run_builtin_def builtin_kill_def)
  next
    assume "(cmd = ''fg'' \<or> cmd = ''bg'') \<and> args = [] \<and> jobs s = []"
    then show "parse_and_execute os line s = Some (Inr (py_print (cmd @ '': no current job'') s))"
      by (auto simp: d builtins_def run_builtin_def builtin_fg_def builtin_bg_def select_jid_def)
  next
    fix a as
    assume "(cmd = ''fg'' \<or> cmd = ''bg'') \<and> args = a # as \<and> int_of_str os a = None"
    then show "parse_and_execute os line s = Some (Inr (py_print (cmd @ '': bad job id'') s))"
      by (auto simp: d builtins_def run_builtin_def builtin_fg_def builtin_bg_def select_jid_def)
  next
    fix a as jid
    assume "(cmd = ''fg'' \<or> cmd = ''bg'') \<and> args = a # as
                  \<and> int_of_str os a = Some jid \<and> find_job_by_jid jid s = None"
    then show "parse_and_execute os line s
                  = Some (Inr (py_print (cmd @ '': job '' @ str_int jid @ '' not found'') s))"
      by (auto simp: d builtins_def run_builtin_def builtin_fg_def builtin_bg_def select_jid_def)
  next
    fix a as jid j e
    assume "cmd = ''bg'' \<and> args = a # as \<and> int_of_str os a = Some jid
                  \<and> find_job_by_jid jid s = Some j
                  \<and> killpg_of_pid os (pid j) SIGCONT s = Inl e"
    then show "parse_and_execute os line s = Some (Inr (py_print (''bg: '' @ e) s))"
      by (auto simp: d builtins_def run_builtin_def builtin_bg_def select_jid_def)
  next
    fix a as jid j e ws
    assume "cmd = ''fg'' \<and> args = a # as \<and> int_of_str os a = Some jid
                  \<and> find_job_by_jid jid s = Some j
                  \<and> killpg_of_pid os (pid j) SIGCONT s = Inl e
                  \<and> waitpid os (pid j) = WRaise # ws"
    then show "\<exists>s1. parse_and_execute os line s = Some (Inr s1) \<and> out s1 = out s"
      by (auto simp: d builtins_def run_builtin_def builtin_fg_def select_jid_def)
  next
    assume "cmd \<notin> set builtins \<and> popen os (cmd # args) = FileNotFoundError"
    then show "parse_and_execute os line s
                  = Some (Inr (py_print (cmd @ '': command not found'') s))"
      by (simp add: d launch_external_def)
  next
    fix e
    assume "cmd \<notin> set builtins \<and> popen os (cmd # args) = SpawnError e"
    then show "parse_and_execute os line s
                  = Some (Inr (py_print (''Error launching '' @ cmd @ '': '' @ e) s))"
      by (simp add: d launch_external_def)
  }
qed

text \<open>\<^verbatim>\<open>fg 7\<close> when the table has no job 7: one line, and the loop reads the next input.\<close>

theorem dispatcher_handles_errors_witness:
  "shlex_split (os_gone [''fg'', ''7'']) (str_strip (os_gone [''fg'', ''7'']) ''fg 7'') \<noteq> Inr [''&'']
   \<and> parse_and_execute (os_gone [''fg'', ''7'']) ''fg 7'' three_jobs
       = Some (Inr (py_print ''fg: job 7 not found'' three_jobs))
   \<and> main_loop [Line ''fg 7'' (os_gone [''fg'', ''7'']) 0, EOFError] three_jobs
       = main_loop [EOFError] (prune_done_jobs 0 (py_print ''fg: job 7 not found'' three_jobs))"
proof -
  have a: "shlex_split (os_gone [''fg'', ''7'']) (str_strip (os_gone [''fg'', ''7'']) ''fg 7'')
             \<noteq> Inr [''&'']"
    by (simp add: os_gone_def)
  have b: "str_strip (os_gone [''fg'', ''7'']) ''fg 7'' \<noteq> []
            \<and> shlex_split (os_gone [''fg'', ''7'']) (str_strip (os_gone [''fg'', ''7'']) ''fg 7'')
                = Inr [''fg'', ''7'']
            \<and> [''fg'', ''7''] \<noteq> [] \<and> split_background [''fg'', ''7''] = (''fg'' # [''7''], False)"
    by code_simp
  have c: "(''fg'' = ''fg'' \<or> ''fg'' = ''bg'') \<and> [''7''] = ''7'' # []
             \<and> int_of_str (os_gone [''fg'', ''7'']) ''7'' = Some 7
             \<and> find_job_by_jid 7 three_jobs = None"
    by code_simp
  have d: "''fg'' @ '': job '' @ str_int 7 @ '' not found'' = ''fg: job 7 not found''"
    by code_simp
  note T = dispatcher_handles_errors [OF a, of three_jobs 0 "[EOFError]"]
  note T3 = T [THEN conjunct2, THEN conjunct2, THEN conjunct1]
  note T6 = T [THEN conjunct2, THEN conjunct2, THEN conjunct2, THEN conjunct2, THEN conjunct2]
  note T6a = T6 [THEN spec [where x = "[''fg'', ''7'']"], THEN spec [where x = "''fg''"],
                 THEN spec [where x = "[''7'']"], THEN spec [where x = False], THEN mp, OF b]
  note T6b = T6a [THEN conjunct2, THEN conjunct2, THEN conjunct2, THEN conjunct2, THEN conjunct1]
  from T6b [rule_format, OF c]
  have pe: "parse_and_execute (os_gone [''fg'', ''7'']) ''fg 7'' three_jobs
       = Some (Inr (py_print ''fg: job 7 not found'' three_jobs))"
    unfolding d .
  from T3 [rule_format, OF pe] a pe show ?thesis by simp
qed

text \<open>
  The claim of C4 says that a process-lookup failure is surfaced as one line. \<^verbatim>\<open>fg 2\<close>
  on job 2 of \<open>three_jobs\<close>, whose process is gone: \<^verbatim>\<open>os.getpgid\<close> raises, and nothing
  is printed.
\<close>

theorem fg_lookup_failure_is_silent:
  "(case parse_and_execute (os_gone [''fg'', ''2'']) ''fg 2'' three_jobs of
      Some (Inr s) \<Rightarrow>
        os_getpgid (os_gone [''fg'', ''2'']) 101 = Inl ''[Errno 3] No such process''
        \<and> out s = out three_jobs
    | _ \<Rightarrow> False)"
  by code_simp

text \<open>
  The line \<open>&\<close> is left out of the statement above: its only token is dropped,
  \<^verbatim>\<open>tokens[0]\<close> raises \<^verbatim>\<open>IndexError\<close>, and the handler around the loop ends the shell
  without reading the next line.
\<close>

lemma lone_ampersand_ends_loop:
  "map_option out (main [Line ''&'' (os_live [''&'']) 0, Line ''jobs'' (os_live [''jobs'']) 0, EOFError])
     = Some [Print banner, Print ''Shell error: list index out of range'']"
  by code_simp



text \<open>
  The other operations keep the index and the statuses in agreement: the handler, the
  pruner, a launch whose new pid is not in the index, \<^verbatim>\<open>kill\<close>, \<^verbatim>\<open>jobs\<close>, and \<^verbatim>\<open>fg\<close> and
  \<^verbatim>\<open>bg\<close> on a record that is \<open>Running\<close> or \<open>Stopped\<close>.
\<close>

lemma live_simps [simp]:
  "live ''Running''" "live ''Stopped''" "\<not> live ''Done''"
  "\<not> live (st_exited c)" "\<not> live (st_signaled g)"
  by (simp_all add: live_def st_exited_def st_signaled_def)

lemma index_inv_cong:
  "jobs s' = jobs s \<Longrightarrow> pid_to_jid s' = pid_to_jid s \<Longrightarrow> index_inv s' = index_inv s"
  by (simp add: index_inv_def)

lemma index_inv_init: "index_inv init_shell"
  by (simp add: index_inv_def index_agrees_def init_shell_def)

lemma agreesI:
  assumes "\<And>jid j. m jid = Some j \<Longrightarrow> (idx (pid j) = Some jid \<longleftrightarrow> live (status j))"
    and "\<And>p jid. idx p = Some jid \<Longrightarrow> \<exists>j. m jid = Some j \<and> pid j = p"
  shows "index_agrees m idx"
  unfolding index_agrees_def using assms by blast

lemma agrees_job:
  "index_agrees m idx \<Longrightarrow> m jid = Some j \<Longrightarrow> (idx (pid j) = Some jid \<longleftrightarrow> live (status j))"
  unfolding index_agrees_def by blast

lemma agrees_entry:
  "index_agrees m idx \<Longrightarrow> idx p = Some jid \<Longrightarrow> \<exists>j. m jid = Some j \<and> pid j = p"
  unfolding index_agrees_def by blast

text \<open>A record is replaced by one with the same pid and the same liveness.\<close>

lemma agrees_relabel:
  assumes a: "index_agrees m idx" and mj: "m jid = Some j" and p: "pid j' = pid j"
    and l: "live (status j') = live (status j)"
  shows "index_agrees (m(jid \<mapsto> j')) idx"
proof (rule agreesI)
  fix k x
  assume kx: "(m(jid \<mapsto> j')) k = Some x"
  show "idx (pid x) = Some k \<longleftrightarrow> live (status x)"
  proof (cases "k = jid")
    case True
    with kx have "x = j'" by simp
    with agrees_job [OF a mj] p l True show ?thesis by simp
  next
    case False
    with kx have "m k = Some x" by simp
    from agrees_job [OF a this] show ?thesis .
  qed
next
  fix q k
  assume "idx q = Some k"
  from agrees_entry [OF a this] obtain x where x: "m k = Some x" "pid x = q" by blast
  show "\<exists>x. (m(jid \<mapsto> j')) k = Some x \<and> pid x = q"
  proof (cases "k = jid")
    case True
    with x mj have "x = j" by simp
    with x p True show ?thesis by simp
  next
    case False
    with x show ?thesis by simp
  qed
qed

text \<open>A live record becomes terminal and its index entry is removed.\<close>

lemma agrees_retire:
  assumes a: "index_agrees m idx" and ip: "idx q = Some jid" and mj: "m jid = Some j"
    and p: "pid j' = pid j" and l: "\<not> live (status j')"
  shows "index_agrees (m(jid \<mapsto> j')) (idx(q := None))"
proof -
  from agrees_entry [OF a ip] mj have pj: "pid j = q" by auto
  show ?thesis
  proof (rule agreesI)
    fix k x
    assume kx: "(m(jid \<mapsto> j')) k = Some x"
    show "(idx(q := None)) (pid x) = Some k \<longleftrightarrow> live (status x)"
    proof (cases "k = jid")
      case True
      with kx have "x = j'" by simp
      with p pj l show ?thesis by simp
    next
      case False
      with kx have mk: "m k = Some x" by simp
      show ?thesis
      proof (cases "pid x = q")
        case True
        with ip False have "idx (pid x) \<noteq> Some k" by simp
        with agrees_job [OF a mk] True show ?thesis by simp
      next
        case False
        with agrees_job [OF a mk] show ?thesis by simp
      qed
    qed
  next
    fix r k
    assume "(idx(q := None)) r = Some k"
    then have r: "r \<noteq> q" "idx r = Some k" by (auto split: if_splits)
    from agrees_entry [OF a r(2)] obtain x where x: "m k = Some x" "pid x = r" by blast
    with r(1) pj mj have "k \<noteq> jid" by auto
    with x show "\<exists>x. (m(jid \<mapsto> j')) k = Some x \<and> pid x = r" by simp
  qed
qed

text \<open>A new live record under a new key, for a pid the index does not hold.\<close>

lemma agrees_add:
  assumes a: "index_agrees m idx" and fresh: "m jid = None" and ip: "idx q = None"
    and p: "pid j = q" and l: "live (status j)"
  shows "index_agrees (m(jid \<mapsto> j)) (idx(q \<mapsto> jid))"
proof (rule agreesI)
  fix k x
  assume kx: "(m(jid \<mapsto> j)) k = Some x"
  show "(idx(q \<mapsto> jid)) (pid x) = Some k \<longleftrightarrow> live (status x)"
  proof (cases "k = jid")
    case True
    with kx have "x = j" by simp
    with p l True show ?thesis by simp
  next
    case False
    with kx have mk: "m k = Some x" by simp
    show ?thesis
    proof (cases "pid x = q")
      case True
      with ip have "idx (pid x) \<noteq> Some k" by simp
      with agrees_job [OF a mk] True False show ?thesis by simp
    next
      case False
      with agrees_job [OF a mk] show ?thesis by simp
    qed
  qed
next
  fix r k
  assume rk: "(idx(q \<mapsto> jid)) r = Some k"
  show "\<exists>x. (m(jid \<mapsto> j)) k = Some x \<and> pid x = r"
  proof (cases "r = q")
    case True
    with rk p show ?thesis by simp
  next
    case False
    with rk have "idx r = Some k" by simp
    from agrees_entry [OF a this] obtain x where x: "m k = Some x" "pid x = r" by blast
    with fresh have "k \<noteq> jid" by auto
    with x show ?thesis by simp
  qed
qed

text \<open>Terminal records are dropped from the table.\<close>

lemma agrees_drop:
  assumes a: "index_agrees m idx"
    and sub: "\<And>jid j. m' jid = Some j \<Longrightarrow> m jid = Some j"
    and keep: "\<And>jid j. m jid = Some j \<Longrightarrow> live (status j) \<Longrightarrow> m' jid = Some j"
  shows "index_agrees m' idx"
proof (rule agreesI)
  fix k x
  assume "m' k = Some x"
  then have "m k = Some x" by (rule sub)
  from agrees_job [OF a this] show "idx (pid x) = Some k \<longleftrightarrow> live (status x)" .
next
  fix r k
  assume rk: "idx r = Some k"
  from agrees_entry [OF a rk] obtain x where x: "m k = Some x" "pid x = r" by blast
  with agrees_job [OF a x(1)] rk have "live (status x)" by simp
  with x keep show "\<exists>x. m' k = Some x \<and> pid x = r" by blast
qed


lemma map_entry_twice:
  "AList.map_entry k f (AList.map_entry k g xs) = AList.map_entry k (\<lambda>v. f (g v)) xs"
  by (induction xs) auto

lemma map_of_map_entry_Some:
  "map_of xs k = Some v \<Longrightarrow> map_of (AList.map_entry k f xs) = (map_of xs)(k \<mapsto> f v)"
  by (simp add: map_of_map_entry)

lemma index_inv_simps [simp]:
  "index_inv (py_print l s) = index_inv s" "index_inv (emit e s) = index_inv s"
  "index_inv (s\<lparr>foreground_pid := f\<rparr>) = index_inv s"
  "index_inv (s\<lparr>out := out'\<rparr>) = index_inv s"
  by (simp_all add: index_inv_def)

text \<open>The status of a live record is set to a live status.\<close>

lemma index_inv_set_live:
  assumes "index_inv s" and "map_of (jobs s) jid = Some j" and "live (status j)" and "live st"
  shows "index_inv (s\<lparr>jobs := AList.map_entry jid (\<lambda>j. j\<lparr>status := st\<rparr>) (jobs s)\<rparr>)"
proof -
  from assms(1) have d: "distinct (map fst (jobs s))"
    and a: "index_agrees (map_of (jobs s)) (pid_to_jid s)"
    by (simp_all add: index_inv_def)
  from agrees_relabel [OF a assms(2), of "j\<lparr>status := st\<rparr>"] assms(3,4)
  have "index_agrees ((map_of (jobs s))(jid \<mapsto> j\<lparr>status := st\<rparr>)) (pid_to_jid s)" by simp
  with d assms(2) show ?thesis
    by (simp add: index_inv_def map_of_map_entry_Some distinct_map_entry)
qed

text \<open>The record of an index entry becomes terminal and the entry is removed.\<close>

lemma index_inv_retire:
  assumes "index_inv s" and "pid_to_jid s p = Some jid" and "map_of (jobs s) jid = Some j"
    and "\<not> live (status (f j))" and "pid (f j) = pid j"
  shows "index_inv (s\<lparr>jobs := AList.map_entry jid f (jobs s),
                      pid_to_jid := (pid_to_jid s)(p := None)\<rparr>)"
proof -
  from assms(1) have d: "distinct (map fst (jobs s))"
    and a: "index_agrees (map_of (jobs s)) (pid_to_jid s)"
    by (simp_all add: index_inv_def)
  from agrees_retire [OF a assms(2,3), of "f j"] assms(4,5)
  have "index_agrees ((map_of (jobs s))(jid \<mapsto> f j)) ((pid_to_jid s)(p := None))" by simp
  with d assms(3) show ?thesis
    by (simp add: index_inv_def map_of_map_entry_Some distinct_map_entry)
qed

lemma index_inv_lookup:
  assumes "index_inv s" and "pid_to_jid s p = Some jid"
  shows "\<exists>j. map_of (jobs s) jid = Some j \<and> pid j = p \<and> live (status j)"
proof -
  from assms(1) have a: "index_agrees (map_of (jobs s)) (pid_to_jid s)"
    by (simp add: index_inv_def)
  from agrees_entry [OF a assms(2)] obtain j where j: "map_of (jobs s) jid = Some j" "pid j = p"
    by blast
  with agrees_job [OF a j(1)] assms(2) show ?thesis by simp
qed

lemma index_inv_live_has_entry:
  assumes "index_inv s" and "map_of (jobs s) jid = Some j" and "live (status j)"
  shows "pid_to_jid s (pid j) = Some jid"
  using assms agrees_job [of "map_of (jobs s)" "pid_to_jid s" jid j]
  by (simp add: index_inv_def)

lemma index_inv_reap_status:
  assumes "index_inv s" and "live st"
  shows "index_inv (update_job_status p st None s)"
proof (cases "pid_to_jid s p")
  case None
  then show ?thesis using assms by (simp add: update_job_status_def)
next
  case (Some jid)
  from index_inv_lookup [OF assms(1) Some] obtain j where
    j: "map_of (jobs s) jid = Some j" "live (status j)" by blast
  from index_inv_set_live [OF assms(1) j assms(2)] Some j(1) show ?thesis
    by (simp add: update_job_status_def)
qed

lemma index_inv_reap_exited:
  assumes "index_inv s"
  shows "index_inv (mark_job_done p (Some c) (update_job_status p (st_exited c) (Some c) s))"
proof (cases "pid_to_jid s p")
  case None
  then show ?thesis using assms by (simp add: update_job_status_def mark_job_done_def)
next
  case (Some jid)
  from index_inv_lookup [OF assms(1) Some] obtain j where
    j: "map_of (jobs s) jid = Some j" by blast
  have eq: "mark_job_done p (Some c) (update_job_status p (st_exited c) (Some c) s)
          = s\<lparr>jobs := AList.map_entry jid (\<lambda>j. j\<lparr>status := st_exited c, exitcode := Some c\<rparr>) (jobs s),
              pid_to_jid := (pid_to_jid s)(p := None)\<rparr>"
    using Some j
    by (simp add: update_job_status_def mark_job_done_def Let_def map_of_map_entry
                  map_entry_twice)
  show ?thesis unfolding eq
    by (rule index_inv_retire [OF assms Some j]) simp_all
qed

lemma index_inv_reap_signaled:
  assumes "index_inv s"
  shows "index_inv (mark_job_done p None (update_job_status p (st_signaled g) None s))"
proof (cases "pid_to_jid s p")
  case None
  then show ?thesis using assms by (simp add: update_job_status_def mark_job_done_def)
next
  case (Some jid)
  from index_inv_lookup [OF assms(1) Some] obtain j where
    j: "map_of (jobs s) jid = Some j" by blast
  have eq: "mark_job_done p None (update_job_status p (st_signaled g) None s)
          = s\<lparr>jobs := AList.map_entry jid (\<lambda>j. j\<lparr>status := ''Done''\<rparr>) (jobs s),
              pid_to_jid := (pid_to_jid s)(p := None)\<rparr>"
    using Some j
    by (simp add: update_job_status_def mark_job_done_def Let_def map_of_map_entry
                  map_entry_twice)
  show ?thesis unfolding eq
    by (rule index_inv_retire [OF assms Some j]) simp_all
qed

lemma index_inv_sigchld_handler: "index_inv s \<Longrightarrow> index_inv (sigchld_handler evs s)"
proof (induction evs arbitrary: s)
  case Nil
  then show ?case by simp
next
  case (Cons ev evs)
  obtain p w where ev: "ev = (p, w)" by (cases ev)
  show ?case
    using Cons.prems
    by (cases w)
       (auto simp: ev intro!: Cons.IH index_inv_reap_status index_inv_reap_exited
                               index_inv_reap_signaled)
qed


lemma live_not_pruned: "live (status j) \<Longrightarrow> \<not> prune_cond now (jid, j)"
  by (auto simp: live_def prune_cond_def)

lemma index_inv_prune:
  assumes "index_inv s"
  shows "index_inv (prune_done_jobs now s)"
proof -
  from assms have d: "distinct (map fst (jobs s))"
    and a: "index_agrees (map_of (jobs s)) (pid_to_jid s)"
    by (simp_all add: index_inv_def)
  note flt = prune_done_jobs_filter [OF d, of now]
  have d': "distinct (map fst (jobs (prune_done_jobs now s)))"
    unfolding flt using d by (rule distinct_map_filter)
  have idx: "pid_to_jid (prune_done_jobs now s) = pid_to_jid s"
    by (simp add: prune_done_jobs_def)
  have "index_agrees (map_of (jobs (prune_done_jobs now s))) (pid_to_jid s)"
  proof (rule agrees_drop [OF a])
    fix jid j
    assume "map_of (jobs (prune_done_jobs now s)) jid = Some j"
    then have "(jid, j) \<in> set (jobs (prune_done_jobs now s))" by (rule map_of_SomeD)
    then have "(jid, j) \<in> set (jobs s)" by (simp add: flt)
    with d show "map_of (jobs s) jid = Some j" by simp
  next
    fix jid j
    assume "map_of (jobs s) jid = Some j" and "live (status j)"
    then have "(jid, j) \<in> set (jobs (prune_done_jobs now s))"
      by (auto simp: flt live_not_pruned dest: map_of_SomeD)
    with d' show "map_of (jobs (prune_done_jobs now s)) jid = Some j" by simp
  qed
  with d' idx show ?thesis by (simp add: index_inv_def)
qed

lemma index_inv_add_job:
  assumes "index_inv s" and "ids_ok s" and "pid_to_jid s p = None" and "live st"
  shows "index_inv (snd (add_job p cmd st t s))"
proof -
  from assms(1) have d: "distinct (map fst (jobs s))"
    and a: "index_agrees (map_of (jobs s)) (pid_to_jid s)"
    by (simp_all add: index_inv_def)
  from assms(2) have "next_job_id s \<notin> fst ` set (jobs s)"
    by (auto simp: ids_ok_def)
  then have fresh: "map_of (jobs s) (next_job_id s) = None"
    by (simp add: map_of_eq_None_iff)
  from agrees_add [OF a fresh assms(3),
      of "\<lparr>pid = p, cmdline = cmd, status = st, start_time = t, exitcode = None\<rparr>"] assms(4)
  have "index_agrees ((map_of (jobs s))(next_job_id s \<mapsto>
          \<lparr>pid = p, cmdline = cmd, status = st, start_time = t, exitcode = None\<rparr>))
          ((pid_to_jid s)(p \<mapsto> next_job_id s))"
    by simp
  with d show ?thesis
    by (simp add: index_inv_def add_job_def get_next_job_id_def update_conv' distinct_update)
qed

lemma index_inv_launch_wait:
  assumes "launch_wait ws p cmd t s = Some s'" and "index_inv s" and "ids_ok s"
    and "pid_to_jid s p = None"
  shows "index_inv s'"
  using assms
proof (induction ws p cmd t s rule: launch_wait.induct)
  case (4 wpid w rs p cmd t s)
  show ?case
  proof (cases "wpid = 0")
    case True
    with 4 show ?thesis by simp
  next
    case False
    with 4 show ?thesis
      by (cases w) (auto simp: split_def dest: index_inv_add_job [where st = "''Stopped''"])
  qed
qed simp_all

lemma index_inv_launch_external:
  assumes "launch_external os tokens background s = Some r"
    and "index_inv s" and "ids_ok s"
    and "\<And>p. popen os tokens = Spawned p \<Longrightarrow> pid_to_jid s p = None"
  shows "index_inv (state_of r)"
proof (cases "popen os tokens")
  case (Spawned p)
  note fresh = assms(4) [OF Spawned]
  show ?thesis
  proof (cases background)
    case True
    with assms(1) Spawned index_inv_add_job [OF assms(2,3) fresh, of "''Running''"]
    show ?thesis
      by (auto simp: launch_external_def split_def Let_def)
  next
    case False
    with assms(1) Spawned obtain s2 where
      w: "launch_wait (waitpid os p) p (join_sp tokens) (clock os) (s\<lparr>foreground_pid := Some p\<rparr>) = Some s2"
      and r: "r = Inr (s2\<lparr>foreground_pid := None\<rparr>)"
      by (auto simp: launch_external_def)
    from index_inv_launch_wait [OF w] assms(2,3) fresh have "index_inv s2"
      by (simp add: ids_ok_def)
    then show ?thesis by (simp add: r)
  qed
next
  case FileNotFoundError
  with assms(1,2) show ?thesis
    by (auto simp: launch_external_def split: list.splits)
next
  case (SpawnError e)
  with assms(1,2) show ?thesis
    by (auto simp: launch_external_def split: list.splits)
qed

lemma index_inv_builtin_kill: "index_inv (builtin_kill os args s) = index_inv s"
  by (rule index_inv_cong) (simp_all add: builtin_kill_registry)

lemma index_inv_builtin_jobs: "index_inv (builtin_jobs os args s) = index_inv s"
proof -
  have "jobs (foldl (\<lambda>s1 (jid, j). py_print (jobs_line now jid j) s1) s0 xs) = jobs s0
      \<and> pid_to_jid (foldl (\<lambda>s1 (jid, j). py_print (jobs_line now jid j) s1) s0 xs) = pid_to_jid s0"
    for now s0 and xs :: "(int \<times> job) list"
    by (induction xs arbitrary: s0) (simp_all add: split_def)
  then show ?thesis
    unfolding builtin_jobs_def by (intro index_inv_cong) simp_all
qed

lemma index_inv_fg_wait:
  assumes "fg_wait ws p jid s = Some s'" and "index_inv s"
    and "map_of (jobs s) jid = Some j" and "pid j = p" and "live (status j)"
  shows "index_inv s'"
  using assms
proof (induction ws p jid s rule: fg_wait.induct)
  case (4 wpid w rs p jid s)
  note inv = \<open>index_inv s\<close> and look = \<open>map_of (jobs s) jid = Some j\<close>
  from index_inv_live_has_entry [OF inv look \<open>live (status j)\<close>] \<open>pid j = p\<close>
  have idx: "pid_to_jid s p = Some jid" by simp
  show ?case
  proof (cases "wpid = 0")
    case True
    with 4 show ?thesis by simp
  next
    case False
    show ?thesis
    proof (cases w)
      case (WIFEXITED c)
      from index_inv_retire [OF inv idx look,
          of "\<lambda>j. j\<lparr>status := st_exited c, exitcode := Some c\<rparr>"]
      show ?thesis using "4.prems"(1) False WIFEXITED by (auto simp: Let_def)
    next
      case (WIFSIGNALED g)
      from index_inv_retire [OF inv idx look, of "\<lambda>j. j\<lparr>status := st_signaled g\<rparr>"]
      show ?thesis using "4.prems"(1) False WIFSIGNALED by (auto simp: Let_def)
    next
      case (WIFSTOPPED g)
      from idx have same: "(pid_to_jid s)(p \<mapsto> jid) = pid_to_jid s" by (rule map_upd_triv)
      from index_inv_set_live [OF inv look \<open>live (status j)\<close>, of "''Stopped''"]
      show ?thesis using "4.prems"(1) False WIFSTOPPED
        by (auto simp: Let_def same index_inv_def)
    next
      case WIFCONTINUED
      with 4 False show ?thesis by simp
    next
      case WOTHER
      with 4 False show ?thesis by simp
    qed
  qed
qed simp_all

lemma index_inv_builtin_fg_live:
  assumes "builtin_fg os args s = Some s'" and "index_inv s"
    and "\<And>jid j. select_jid os ''fg'' args s = Inr jid \<Longrightarrow> find_job_by_jid jid s = Some j
           \<Longrightarrow> live (status j)"
  shows "index_inv s'"
proof (cases "select_jid os ''fg'' args s")
  case (Inl l)
  with assms(1,2) show ?thesis by (auto simp: builtin_fg_def)
next
  case (Inr jid)
  show ?thesis
  proof (cases "find_job_by_jid jid s")
    case None
    with Inr assms(1,2) show ?thesis by (auto simp: builtin_fg_def)
  next
    case (Some j)
    note l = assms(3) [OF Inr Some]
    define s1 where "s1 = (case killpg_of_pid os (pid j) SIGCONT s of Inl e \<Rightarrow> s | Inr s' \<Rightarrow> s')"
    define s2 where "s2 = s1\<lparr>jobs := AList.map_entry jid (\<lambda>j. j\<lparr>status := ''Running''\<rparr>) (jobs s1)\<rparr>"
    have s1: "jobs s1 = jobs s" "pid_to_jid s1 = pid_to_jid s"
      by (auto simp: s1_def dest: killpg_of_pid_fields split: sum.splits)
    then have inv1: "index_inv s1" using assms(2) by (simp add: index_inv_def)
    from Some s1 have look1: "map_of (jobs s1) jid = Some j" by (simp add: find_job_by_jid_def)
    from index_inv_set_live [OF inv1 look1 l, of "''Running''"] have inv2: "index_inv s2"
      by (simp add: s2_def)
    have look2: "map_of (jobs s2) jid = Some (j\<lparr>status := ''Running''\<rparr>)"
      using look1 by (simp add: s2_def map_of_map_entry)
    from assms(1) Inr Some obtain s4 where
      w: "fg_wait (waitpid os (pid j)) (pid j) jid (s2\<lparr>foreground_pid := Some (pid j)\<rparr>) = Some s4"
      and s': "s' = s4\<lparr>foreground_pid := None\<rparr>"
      by (auto simp: builtin_fg_def Let_def s1_def s2_def)
    from index_inv_fg_wait [OF w, of "j\<lparr>status := ''Running''\<rparr>"] inv2 look2
    have "index_inv s4" by simp
    then show ?thesis by (simp add: s')
  qed
qed

lemma index_inv_builtin_bg_live:
  assumes "index_inv s"
    and "\<And>jid j. select_jid os ''bg'' args s = Inr jid \<Longrightarrow> find_job_by_jid jid s = Some j
           \<Longrightarrow> live (status j)"
  shows "index_inv (builtin_bg os args s)"
proof (cases "select_jid os ''bg'' args s")
  case (Inl l)
  with assms(1) show ?thesis by (simp add: builtin_bg_def)
next
  case (Inr jid)
  show ?thesis
  proof (cases "find_job_by_jid jid s")
    case None
    with Inr assms(1) show ?thesis by (simp add: builtin_bg_def)
  next
    case (Some j)
    note l = assms(2) [OF Inr Some]
    from Some have look: "map_of (jobs s) jid = Some j" by (simp add: find_job_by_jid_def)
    show ?thesis
    proof (cases "killpg_of_pid os (pid j) SIGCONT s")
      case (Inl e)
      with Inr Some assms(1) show ?thesis by (simp add: builtin_bg_def)
    next
      case (Inr s1)
      from killpg_of_pid_fields [OF Inr] have s1: "jobs s1 = jobs s" "pid_to_jid s1 = pid_to_jid s"
        by simp_all
      then have inv1: "index_inv s1" using assms(1) by (simp add: index_inv_def)
      from look s1 have look1: "map_of (jobs s1) jid = Some j" by simp
      from index_inv_live_has_entry [OF inv1 look1 l]
      have same: "(pid_to_jid s1)(pid j \<mapsto> jid) = pid_to_jid s1" by (rule map_upd_triv)
      from index_inv_set_live [OF inv1 look1 l, of "''Running''"]
      show ?thesis using \<open>select_jid os ''bg'' args s = Inr jid\<close> Some Inr
        by (simp add: builtin_bg_def Let_def same index_inv_def)
    qed
  qed
qed

end
